theory Spec2Isabelle
  imports Complex_Main "HOL-Library.Multiset"
begin

section \<open>Numbers\<close>

text \<open>
  A JavaScript number is an IEEE 754 double. A number is modelled by the real it
  denotes, and every \<open>+\<close>, \<open>-\<close>, \<open>*\<close> and \<open>/\<close> of the code by the exact operation
  followed by \<open>double_round\<close>, rounding to the nearest double with ties to the even
  significand: a double is \<open>n * 2 ^ (e - 52)\<close> for an integer \<open>n\<close> of at most 53 bits,
  where \<open>e\<close> is the binary exponent of the value and not below \<open>-1022\<close> (below it the
  doubles are the subnormal ones, with the spacing \<open>2 ^ -1074\<close>). Comparisons are exact.

  Outside the model: NaN, the two infinities (a result of magnitude \<open>2 ^ 1024\<close> or
  more is rounded here as if the exponent range had no upper end, and a division is
  only meaningful where the divisor is not zero) and the sign of zero.
\<close>

definition pow2 :: "int \<Rightarrow> real" where
  "pow2 k = (if 0 \<le> k then 2 ^ nat k else 1 / 2 ^ nat (- k))"

text \<open>The nearest integer, the even one of the two at a tie.\<close>

definition round_even :: "real \<Rightarrow> int" where
  "round_even y =
     (let f = \<lfloor>y\<rfloor> in
      if y - of_int f < 1 / 2 then f
      else if y - of_int f > 1 / 2 then f + 1
      else if even f then f else f + 1)"

text \<open>
  The exponent of the binade of \<open>x\<close>: \<open>2 ^ e \<le> |x| < 2 ^ (e + 1)\<close>, and \<open>-1022\<close> for
  the subnormal range.
\<close>

definition double_exponent :: "real \<Rightarrow> int" where
  "double_exponent x = max \<lfloor>log 2 \<bar>x\<bar>\<rfloor> (- 1022)"

definition double_round :: "real \<Rightarrow> real" where
  "double_round x =
     (if x = 0 then 0
      else of_int (round_even (x / pow2 (double_exponent x - 52))) *
           pow2 (double_exponent x - 52))"

section \<open>Data model\<close>

text \<open>
  A \<open>FlameChartNode\<close> is the input interval; \<open>ntype\<close>, \<open>color\<close> and \<open>children\<close> are
  optional properties (\<open>None\<close> when absent).
\<close>

datatype FlameChartNode =
  FlameChartNode
    (name: string)
    (start: real)
    (duration: real)
    (ntype: "string option")
    (color: "string option")
    (children: "FlameChartNode list option")

text \<open>
  A \<open>FlatTreeNode\<close> is the object built by the callback of \<open>flatTree\<close>. The field
  \<open>end\<close> of the source is called \<open>node_end\<close> here; \<open>parent\<close> is the flat node
  returned for the parent interval (\<open>None\<close> for \<open>null\<close>).
\<close>

datatype FlatTreeNode =
  FlatTreeNode
    (source: FlameChartNode)
    (node_end: real)
    (parent: "FlatTreeNode option")
    (level: nat)
    (index: nat)

section \<open>Flattening\<close>

text \<open>
  \<open>walk(treeList, cb, parent, level)\<close>: for each child, call the callback, then
  descend into \<open>child.children\<close> when the property is present (an array is truthy
  even when empty) with the callback's result as the new parent. The callback of the
  source mutates variables of the enclosing function; here it threads a state \<open>'s\<close>.
  The callback of \<open>flatTree\<close> always returns an object, so the fallback of
  \<open>res || child\<close> is never taken and the result is passed on as it is.
\<close>

function walk ::
  "FlameChartNode list \<Rightarrow> (FlameChartNode \<Rightarrow> 'p option \<Rightarrow> nat \<Rightarrow> 's \<Rightarrow> 'p \<times> 's)
     \<Rightarrow> 'p option \<Rightarrow> nat \<Rightarrow> 's \<Rightarrow> 's" where
  "walk [] cb par lvl s = s"
| "walk (child # rest) cb par lvl s =
     (let (res, s1) = cb child par lvl s;
          s2 = (case children child of
                  None \<Rightarrow> s1
                | Some cs \<Rightarrow> walk cs cb (Some res) (lvl + 1) s1)
      in walk rest cb par lvl s2)"
  by pat_completeness auto
termination
proof (relation "measure (\<lambda>(xs, cb, par, lvl, s). size_list size xs)", goal_cases)
  case 1
  show ?case by simp
next
  case (2 child rest cb par lvl s x res s1 cs)
  then show ?case by (cases child) simp
next
  case (3 child rest cb par lvl s x res s1 s2)
  show ?case by simp
qed

text \<open>
  The callback of \<open>flatTree\<close>: the state is the array \<open>result\<close> and the counter
  \<open>index\<close>.
\<close>

definition flatTree_cb ::
  "FlameChartNode \<Rightarrow> FlatTreeNode option \<Rightarrow> nat \<Rightarrow> FlatTreeNode list \<times> nat
     \<Rightarrow> FlatTreeNode \<times> (FlatTreeNode list \<times> nat)" where
  "flatTree_cb node par lvl s =
     (let newNode = FlatTreeNode node (double_round (start node + duration node)) par lvl (snd s)
      in (newNode, (fst s @ [newNode], snd s + 1)))"

text \<open>
  The comparator of the final sort, \<open>a.level - b.level || a.source.start - b.source.start\<close>:
  the level difference when it is not zero, the difference of the starts otherwise.
  The sort reads only the sign of the result, and the difference of two doubles is
  negative, zero or positive as the exact difference is (a difference of two doubles
  that is not zero is at least \<open>2 ^ -1074\<close> in magnitude and does not round to zero),
  so the differences are left exact here.
\<close>

definition flatTree_compare :: "FlatTreeNode \<Rightarrow> FlatTreeNode \<Rightarrow> real" where
  "flatTree_compare a b =
     (if real (level a) - real (level b) \<noteq> 0 then real (level a) - real (level b)
      else start (source a) - start (source b))"

text \<open>
  \<open>Array.prototype.sort\<close> with a comparator is a stable sort: an element is placed
  before the first later element it does not compare greater than.
\<close>

fun insert_by :: "('a \<Rightarrow> 'a \<Rightarrow> real) \<Rightarrow> 'a \<Rightarrow> 'a list \<Rightarrow> 'a list" where
  "insert_by cmp x [] = [x]"
| "insert_by cmp x (y # ys) = (if cmp x y \<le> 0 then x # y # ys else y # insert_by cmp x ys)"

definition sort_by :: "('a \<Rightarrow> 'a \<Rightarrow> real) \<Rightarrow> 'a list \<Rightarrow> 'a list" where
  "sort_by cmp xs = foldr (insert_by cmp) xs []"

definition flatTree :: "FlameChartNode list \<Rightarrow> FlatTreeNode list" where
  "flatTree treeList = sort_by flatTree_compare (fst (walk treeList flatTree_cb None 0 ([], 0)))"

section \<open>Clustering\<close>

definition MIN_BLOCK_SIZE :: real where
  "MIN_BLOCK_SIZE = 1"

definition STICK_DISTANCE :: real where
  "STICK_DISTANCE = 0.25"

text \<open>The product 2 and the sum 2.25 are doubles: neither operation rounds.\<close>

definition MIN_CLUSTER_SIZE :: real where
  "MIN_CLUSTER_SIZE = MIN_BLOCK_SIZE * 2 + STICK_DISTANCE"

text \<open>
  \<open>last(array)\<close> is \<open>array[array.length - 1]\<close>: \<open>undefined\<close> (\<open>None\<close>) on an empty
  array.
\<close>

definition last_elem :: "'a list \<Rightarrow> 'a option" where
  "last_elem array = (if array = [] then None else Some (last array))"

record MetaClusterizedFlatTreeNode =
  nodes :: "FlatTreeNode list"

text \<open>
  A render cluster has the property \<open>nodes\<close> of a meta-cluster and six more; the
  source passes render clusters where meta-clusters are expected
  (\<open>clusterizeFlatTree([cluster], ...)\<close>), which the record extension allows. The
  fields \<open>start\<close>, \<open>end\<close>, \<open>duration\<close>, \<open>type\<close>, \<open>color\<close>, \<open>level\<close> of the source
  carry the prefix \<open>c\<close> here.
\<close>

record ClusterizedFlatTreeNode = MetaClusterizedFlatTreeNode +
  cstart :: real
  cend :: real
  cduration :: real
  ctype :: "string option"
  ccolor :: "string option"
  clevel :: nat

definition checkNodeTimeboundNesting :: "FlatTreeNode \<Rightarrow> real \<Rightarrow> real \<Rightarrow> bool" where
  "checkNodeTimeboundNesting node s e =
     ((start (source node) < e \<and> node_end node > s) \<or>
      (start (source node) > s \<and> node_end node < e))"

definition checkClusterTimeboundNesting ::
  "ClusterizedFlatTreeNode \<Rightarrow> real \<Rightarrow> real \<Rightarrow> bool" where
  "checkClusterTimeboundNesting node s e =
     ((cstart node < e \<and> cend node > s) \<or> (cstart node > s \<and> cend node < e))"

definition defaultClusterizeCondition :: "FlatTreeNode \<Rightarrow> FlatTreeNode \<Rightarrow> bool" where
  "defaultClusterizeCondition prevNode node =
     (color (source prevNode) = color (source node) \<and>
      ntype (source prevNode) = ntype (source node))"

text \<open>
  The callback of the \<open>reduce\<close> in \<open>metaClusterizeFlatTree\<close>. \<open>lastCluster\<close> is the
  last array of \<open>acc\<close>, so \<open>lastCluster.push(node)\<close> changes the last element of
  \<open>acc\<close>.
\<close>

definition metaClusterize_step ::
  "(FlatTreeNode \<Rightarrow> FlatTreeNode \<Rightarrow> bool) \<Rightarrow> FlatTreeNode list list \<Rightarrow> FlatTreeNode
     \<Rightarrow> FlatTreeNode list list" where
  "metaClusterize_step condition acc node =
     (case last_elem acc of
        None \<Rightarrow> acc @ [[node]]
      | Some lastCluster \<Rightarrow>
          (case last_elem lastCluster of
             None \<Rightarrow> acc @ [[node]]
           | Some lastNode \<Rightarrow>
               if level lastNode = level node \<and> condition lastNode node
               then butlast acc @ [lastCluster @ [node]]
               else acc @ [[node]]))"

definition metaClusterizeFlatTree ::
  "FlatTreeNode list \<Rightarrow> (FlatTreeNode \<Rightarrow> FlatTreeNode \<Rightarrow> bool)
     \<Rightarrow> MetaClusterizedFlatTreeNode list" where
  "metaClusterizeFlatTree flat condition =
     map (\<lambda>ns. \<lparr>nodes = ns\<rparr>)
       (filter (\<lambda>ns. length ns \<noteq> 0) (foldl (metaClusterize_step condition) [] flat))"

text \<open>
  \<open>calcClusterDuration\<close> reads \<open>nodes[0]\<close> and \<open>last(nodes)\<close>; on an empty array both
  are \<open>undefined\<close> and the property access throws a TypeError (\<open>None\<close>).
\<close>

definition calcClusterDuration :: "FlatTreeNode list \<Rightarrow> real option" where
  "calcClusterDuration ns =
     (case ns of
        [] \<Rightarrow> None
      | firstNode # _ \<Rightarrow>
          (case last_elem ns of
             None \<Rightarrow> None
           | Some lastNode \<Rightarrow>
               Some (double_round
                       (double_round (start (source lastNode) + duration (source lastNode))
                        - start (source firstNode)))))"

text \<open>
  The state of the scan in \<open>clusterizeFlatTree\<close>: the accumulator of the \<open>reduce\<close>
  and the three variables \<open>lastCluster\<close>, \<open>lastNode\<close>, \<open>index\<close> of the enclosing
  function. \<open>lastCluster\<close> is the array pushed last onto \<open>acc\<close>: a write through it is
  a write to the last element of \<open>acc\<close>, and the model performs both.
\<close>

record scan_state =
  acc :: "FlatTreeNode list list"
  lastCluster :: "FlatTreeNode list option"
  lastNode :: "FlatTreeNode option"
  cl_index :: nat

text \<open>
  \<open>array[i] = v\<close>: replaces the element at \<open>i\<close> inside the array and extends the
  array by one at \<open>i = length\<close>. The scan always writes at \<open>i = length\<close> (the
  invariant \<open>scan_inv\<close> and lemma \<open>clusterize_node_inv\<close> below), never beyond it, where
  JavaScript would leave holes and the model appends.
\<close>

definition array_put :: "'a list \<Rightarrow> nat \<Rightarrow> 'a \<Rightarrow> 'a list" where
  "array_put xs i v = (if i < length xs then xs[i := v] else xs @ [v])"

definition scan_put :: "scan_state \<Rightarrow> FlatTreeNode list \<Rightarrow> FlatTreeNode \<Rightarrow> scan_state" where
  "scan_put st lc node =
     (let lc' = array_put lc (cl_index st) node
      in st\<lparr>acc := butlast (acc st) @ [lc'], lastCluster := Some lc',
            cl_index := cl_index st + 1\<rparr>)"

definition scan_new :: "scan_state \<Rightarrow> FlatTreeNode \<Rightarrow> scan_state" where
  "scan_new st node = st\<lparr>acc := acc st @ [[node]], lastCluster := Some [node], cl_index := 1\<rparr>"

definition clusterize_node ::
  "real \<Rightarrow> real \<Rightarrow> real \<Rightarrow> real \<Rightarrow> real \<Rightarrow> scan_state \<Rightarrow> FlatTreeNode \<Rightarrow> scan_state" where
  "clusterize_node zoom s e stickDistance minBlockSize st node =
     (if checkNodeTimeboundNesting node s e then
        (let st' =
           (case lastCluster st of
              None \<Rightarrow> scan_new st node
            | Some lc \<Rightarrow>
                (case lastNode st of
                   None \<Rightarrow> scan_put st lc node
                 | Some prev \<Rightarrow>
                     if double_round
                          (double_round
                             (start (source node) -
                              double_round (start (source prev) + duration (source prev))) * zoom)
                          < stickDistance \<and>
                        double_round (duration (source node) * zoom) < minBlockSize \<and>
                        double_round (duration (source prev) * zoom) < minBlockSize
                     then scan_put st lc node
                     else scan_new st node))
         in st'\<lparr>lastNode := Some node\<rparr>)
      else st)"

definition clusterize_meta ::
  "real \<Rightarrow> real \<Rightarrow> real \<Rightarrow> real \<Rightarrow> real \<Rightarrow> scan_state
     \<Rightarrow> 'a MetaClusterizedFlatTreeNode_scheme \<Rightarrow> scan_state" where
  "clusterize_meta zoom s e stickDistance minBlockSize st mc =
     foldl (clusterize_node zoom s e stickDistance minBlockSize)
       (st\<lparr>lastCluster := None, lastNode := None, cl_index := 0\<rparr>) (nodes mc)"

definition make_cluster :: "FlatTreeNode list \<Rightarrow> ClusterizedFlatTreeNode option" where
  "make_cluster ns =
     (case ns of
        [] \<Rightarrow> None
      | node # _ \<Rightarrow>
          (case calcClusterDuration ns of
             None \<Rightarrow> None
           | Some d \<Rightarrow>
               Some \<lparr>nodes = ns, cstart = start (source node),
                     cend = double_round (start (source node) + d),
                     cduration = d, ctype = ntype (source node), ccolor = color (source node),
                     clevel = level node\<rparr>))"

text \<open>\<open>array.map(f)\<close> for a callback that may throw: the first exception ends the call.\<close>

fun map_throwing :: "('a \<Rightarrow> 'b option) \<Rightarrow> 'a list \<Rightarrow> 'b list option" where
  "map_throwing f [] = Some []"
| "map_throwing f (x # xs) =
     (case f x of
        None \<Rightarrow> None
      | Some y \<Rightarrow> (case map_throwing f xs of None \<Rightarrow> None | Some ys \<Rightarrow> Some (y # ys)))"

text \<open>A parameter with a default value: the default replaces \<open>undefined\<close>.\<close>

definition or_default :: "'a \<Rightarrow> 'a option \<Rightarrow> 'a" where
  "or_default d v = (case v of None \<Rightarrow> d | Some x \<Rightarrow> x)"

definition clusterizeFlatTree ::
  "'a MetaClusterizedFlatTreeNode_scheme list \<Rightarrow> real \<Rightarrow> real option \<Rightarrow> real option
     \<Rightarrow> real option \<Rightarrow> real option \<Rightarrow> ClusterizedFlatTreeNode list option" where
  "clusterizeFlatTree metaClusterizedFlatTree zoom s e stickDistance minBlockSize =
     map_throwing make_cluster
       (acc (foldl
          (clusterize_meta zoom (or_default 0 s) (or_default 0 e)
             (or_default STICK_DISTANCE stickDistance) (or_default MIN_BLOCK_SIZE minBlockSize))
          \<lparr>acc = [], lastCluster = None, lastNode = None, cl_index = 0\<rparr>
          metaClusterizedFlatTree))"

text \<open>
  The callback of the \<open>reduce\<close> in \<open>reclusterizeClusteredFlatTree\<close>; \<open>None\<close> is an
  exception thrown by \<open>clusterizeFlatTree\<close>. The parameters \<open>stickDistance\<close> and
  \<open>minBlockSize\<close> are passed on as they come (\<open>None\<close> for \<open>undefined\<close>).
\<close>

definition reclusterize_step ::
  "real \<Rightarrow> real \<Rightarrow> real \<Rightarrow> real option \<Rightarrow> real option
     \<Rightarrow> ClusterizedFlatTreeNode list option \<Rightarrow> ClusterizedFlatTreeNode
     \<Rightarrow> ClusterizedFlatTreeNode list option" where
  "reclusterize_step zoom s e stickDistance minBlockSize r cluster =
     (case r of
        None \<Rightarrow> None
      | Some a \<Rightarrow>
          if checkClusterTimeboundNesting cluster s e then
            (if double_round (cduration cluster * zoom) \<le> MIN_CLUSTER_SIZE
             then Some (a @ [cluster])
             else (case clusterizeFlatTree [cluster] zoom (Some s) (Some e)
                          stickDistance minBlockSize of
                     None \<Rightarrow> None
                   | Some cs \<Rightarrow> Some (a @ cs)))
          else Some a)"

definition reclusterizeClusteredFlatTree ::
  "ClusterizedFlatTreeNode list \<Rightarrow> real \<Rightarrow> real \<Rightarrow> real \<Rightarrow> real option \<Rightarrow> real option
     \<Rightarrow> ClusterizedFlatTreeNode list option" where
  "reclusterizeClusteredFlatTree clusteredFlatTree zoom s e stickDistance minBlockSize =
     foldl (reclusterize_step zoom s e stickDistance minBlockSize) (Some []) clusteredFlatTree"

section \<open>The render engines\<close>

text \<open>
  The fields of \<open>BasicRenderEngine\<close> that the viewport operations read and write;
  \<open>min\<close> and \<open>max\<close> of the source are \<open>vmin\<close> and \<open>vmax\<close>. The canvas, the styles
  and the render queues are not part of the model.
\<close>

record BasicRenderEngine =
  zoom :: real
  positionX :: real
  vmin :: real
  vmax :: real
  width :: real
  height :: real

definition timeToPosition :: "'a BasicRenderEngine_scheme \<Rightarrow> real \<Rightarrow> real" where
  "timeToPosition engine time =
     double_round (double_round (time * zoom engine) - double_round (positionX engine * zoom engine))"

definition pixelToTime :: "'a BasicRenderEngine_scheme \<Rightarrow> real \<Rightarrow> real" where
  "pixelToTime engine w = double_round (w / zoom engine)"

definition getInitialZoom :: "'a BasicRenderEngine_scheme \<Rightarrow> real" where
  "getInitialZoom engine =
     (if double_round (vmax engine - vmin engine) > 0
      then double_round (width engine / double_round (vmax engine - vmin engine))
      else 1)"

definition getRealView :: "'a BasicRenderEngine_scheme \<Rightarrow> real" where
  "getRealView engine = double_round (width engine / zoom engine)"

text \<open>
  An \<open>OffscreenRenderEngine\<close> is the engine of one panel; the root \<open>RenderEngine\<close>
  holds them in \<open>children\<close> (\<open>child_engines\<close> here) and reads the accuracy of its
  time grid (\<open>timeGrid.accuracy\<close>, here the field \<open>accuracy\<close>). The engines that a
  panel creates with \<open>makeChild\<close> are not modelled.
\<close>

record OffscreenRenderEngine = BasicRenderEngine +
  flexible :: bool
  collapsed :: bool
  position :: real

record RenderEngine = BasicRenderEngine +
  child_engines :: "OffscreenRenderEngine list"
  accuracy :: nat
  plugin_bounds :: "(real option \<times> real option) list"

definition MAX_ACCURACY :: nat where
  "MAX_ACCURACY = 6"

text \<open>
  \<open>RenderEngine.setZoom\<close>: the zoom is stored in the engine and in every child when
  the accuracy is under \<open>MAX_ACCURACY\<close> or the request does not zoom in; the result
  is \<open>true\<close> then, and \<open>false\<close> with nothing changed otherwise.
\<close>

definition setZoom :: "RenderEngine \<Rightarrow> real \<Rightarrow> bool \<times> RenderEngine" where
  "setZoom engine z =
     (if accuracy engine < MAX_ACCURACY \<or> z \<le> zoom engine
      then (True, engine\<lparr>zoom := z,
                         child_engines := map (\<lambda>c. c\<lparr>zoom := z\<rparr>) (child_engines engine)\<rparr>)
      else (False, engine))"

definition setPositionX :: "RenderEngine \<Rightarrow> real \<Rightarrow> real \<times> RenderEngine" where
  "setPositionX engine x =
     (double_round (x - positionX engine),
      engine\<lparr>positionX := x,
             child_engines := map (\<lambda>c. c\<lparr>positionX := x\<rparr>) (child_engines engine)\<rparr>)"

definition tryToChangePosition :: "RenderEngine \<Rightarrow> real \<Rightarrow> RenderEngine" where
  "tryToChangePosition engine positionDelta =
     (let realView = getRealView engine in
      if double_round (double_round (positionX engine + positionDelta) + realView) \<le> vmax engine \<and>
         double_round (positionX engine + positionDelta) \<ge> vmin engine
      then snd (setPositionX engine (double_round (positionX engine + positionDelta)))
      else if double_round (positionX engine + positionDelta) \<le> vmin engine
      then snd (setPositionX engine (vmin engine))
      else if double_round (double_round (positionX engine + positionDelta) + realView) \<ge> vmax engine
      then snd (setPositionX engine (double_round (vmax engine - realView)))
      else engine)"

definition setMinMax :: "RenderEngine \<Rightarrow> real \<Rightarrow> real \<Rightarrow> RenderEngine" where
  "setMinMax engine lo hi =
     engine\<lparr>vmin := lo, vmax := hi,
            child_engines := map (\<lambda>c. c\<lparr>vmin := lo, vmax := hi\<rparr>) (child_engines engine)\<rparr>"

text \<open>
  \<open>array.reduce(f)\<close> without an initial value throws a TypeError on an empty array.
\<close>

definition reduce1 :: "('a \<Rightarrow> 'a \<Rightarrow> 'a) \<Rightarrow> 'a list \<Rightarrow> 'a option" where
  "reduce1 f xs = (case xs of [] \<Rightarrow> None | x # rest \<Rightarrow> Some (foldl f x rest))"

text \<open>
  \<open>calcMinMax\<close> reads \<open>min\<close> and \<open>max\<close> of every plugin and keeps the numbers;
  \<open>plugin_bounds\<close> holds these two properties of each plugin, \<open>None\<close> where the
  property is not a number.
\<close>

definition calcMinMax :: "RenderEngine \<Rightarrow> RenderEngine option" where
  "calcMinMax engine =
     (case reduce1 min (List.map_filter fst (plugin_bounds engine)) of
        None \<Rightarrow> None
      | Some lo \<Rightarrow>
          (case reduce1 max (List.map_filter snd (plugin_bounds engine)) of
             None \<Rightarrow> None
           | Some hi \<Rightarrow> Some (setMinMax engine lo hi)))"

definition resetView :: "RenderEngine \<Rightarrow> RenderEngine" where
  "resetView engine =
     (let e1 = snd (setZoom engine (getInitialZoom engine))
      in snd (setPositionX e1 (vmin e1)))"

section \<open>The flame chart plugin\<close>

text \<open>
  \<open>getFlatTreeMinMax\<close>: the state of the \<open>forEach\<close> is \<open>(isFirst, min, max)\<close>.
\<close>

definition minmax_step :: "bool \<times> real \<times> real \<Rightarrow> FlatTreeNode \<Rightarrow> bool \<times> real \<times> real" where
  "minmax_step st node =
     (case st of (isFirst, lo, hi) \<Rightarrow>
        if isFirst then (False, start (source node), node_end node)
        else (False,
              if lo < start (source node) then lo else start (source node),
              if hi > node_end node then hi else node_end node))"

definition getFlatTreeMinMax :: "FlatTreeNode list \<Rightarrow> real \<times> real" where
  "getFlatTreeMinMax flat = snd (foldl minmax_step (True, 0, 0) flat)"

text \<open>
  The fields of \<open>FlameChartPlugin\<close> that \<open>setData\<close> touches (\<open>flatTree\<close>, \<open>min\<close>,
  \<open>max\<close> of the source carry the prefix \<open>p_\<close>; the colour generator
  \<open>lastRandomColor\<close> is left out). \<open>this.renderEngine\<close> is the child of the root
  engine at \<open>engine_index\<close>, and the plugin is the entry of \<open>plugins\<close> at the same
  index.
\<close>

record FlameChartPlugin =
  data :: "FlameChartNode list"
  p_flatTree :: "FlatTreeNode list"
  p_min :: real
  p_max :: real
  positionY :: real
  selectedRegion :: "FlatTreeNode option"
  colors :: "string \<rightharpoonup> string"
  metaClusterizedFlatTree :: "MetaClusterizedFlatTreeNode list"
  initialClusterizedFlatTree :: "ClusterizedFlatTreeNode list"
  actualClusterizedFlatTree :: "ClusterizedFlatTreeNode list"
  engine_index :: nat

definition nth_elem :: "'a list \<Rightarrow> nat \<Rightarrow> 'a option" where
  "nth_elem xs i = (if i < length xs then Some (xs ! i) else None)"

definition parseData :: "FlameChartPlugin \<Rightarrow> FlameChartPlugin" where
  "parseData p =
     (let ft = flatTree (data p); mm = getFlatTreeMinMax ft
      in p\<lparr>p_flatTree := ft, p_min := fst mm, p_max := snd mm\<rparr>)"

definition plugin_reclusterize ::
  "FlameChartPlugin \<Rightarrow> OffscreenRenderEngine \<Rightarrow> FlameChartPlugin option" where
  "plugin_reclusterize p engine =
     (case reclusterizeClusteredFlatTree (initialClusterizedFlatTree p) (zoom engine)
             (positionX engine) (double_round (positionX engine + getRealView engine))
             None None of
        None \<Rightarrow> None
      | Some cs \<Rightarrow> Some (p\<lparr>actualClusterizedFlatTree := cs\<rparr>))"

definition initData :: "FlameChartPlugin \<Rightarrow> OffscreenRenderEngine \<Rightarrow> FlameChartPlugin option" where
  "initData p engine =
     (let meta = metaClusterizeFlatTree (p_flatTree p) defaultClusterizeCondition
      in case clusterizeFlatTree meta (zoom engine) (Some (p_min p)) (Some (p_max p)) None None of
           None \<Rightarrow> None
         | Some initial \<Rightarrow>
             plugin_reclusterize
               (p\<lparr>metaClusterizedFlatTree := meta, initialClusterizedFlatTree := initial\<rparr>)
               engine)"

definition reset :: "FlameChartPlugin \<Rightarrow> FlameChartPlugin" where
  "reset p = p\<lparr>colors := Map.empty, positionY := 0, selectedRegion := None\<rparr>"

text \<open>
  \<open>setData(data)\<close> has no return value and no check of its argument: it stores the
  forest, rebuilds everything derived from it, and resets the view of the root
  engine. The plugin is an entry of \<open>plugins\<close> of the root engine, so the \<open>min\<close> and
  \<open>max\<close> that \<open>parseData\<close> stores are the ones \<open>calcMinMax\<close> reads: the model writes
  them to \<open>plugin_bounds\<close> at the index of the plugin. \<open>None\<close> stands for an
  exception thrown on the way (a missing engine, an empty \<open>reduce\<close>, or one thrown by
  the clustering); the request for a new frame (\<open>render\<close>) is not part of the model.
\<close>

definition setData ::
  "FlameChartPlugin \<times> RenderEngine \<Rightarrow> FlameChartNode list
     \<Rightarrow> (FlameChartPlugin \<times> RenderEngine) option" where
  "setData st d =
     (case st of (p, main) \<Rightarrow>
        (let p1 = parseData (p\<lparr>data := d\<rparr>);
             main1 = main\<lparr>plugin_bounds :=
                       (plugin_bounds main)[engine_index p := (Some (p_min p1), Some (p_max p1))]\<rparr>
         in case nth_elem (child_engines main1) (engine_index p1) of
              None \<Rightarrow> None
            | Some engine \<Rightarrow>
                (case initData p1 engine of
                   None \<Rightarrow> None
                 | Some p2 \<Rightarrow>
                     (case calcMinMax main1 of
                        None \<Rightarrow> None
                      | Some main2 \<Rightarrow> Some (reset p2, resetView main2)))))"

section \<open>The interactions engine\<close>

datatype RegionTypes =
  WATERFALL_NODE | CLUSTER | TIMEFRAME | TIMEFRAME_AREA | TIMEFRAME_KNOB | KNOB_RESIZE
  | TOGGLE | TIMESTAMP | TIMESERIES

datatype CursorTypes = TEXT | ROW_RESIZE | POINTER | EW_RESIZE | GRABBING

text \<open>
  A hit region; the fields \<open>x\<close>, \<open>y\<close>, \<open>w\<close>, \<open>h\<close>, \<open>type\<close>, \<open>data\<close>, \<open>cursor\<close>, \<open>id\<close> of
  the source carry the prefix \<open>r\<close>. \<open>rid\<close> is the id of the
  \<open>SeparatedInteractionsEngine\<close> that added the region, and is absent for a region
  added to the root engine.
\<close>

record 'd HitRegion =
  rtype :: RegionTypes
  rdata :: 'd
  rx :: real
  ry :: real
  rw :: real
  rh :: real
  rcursor :: "CursorTypes option"
  rid :: "nat option"

record Mouse =
  mouse_x :: real
  mouse_y :: real

text \<open>
  A \<open>SeparatedInteractionsEngine\<close>: its id, its hit regions, and \<open>position\<close> and
  \<open>height\<close> of its render engine.
\<close>

record 'd SeparatedInteractionsEngine =
  s_id :: nat
  s_hitRegions :: "'d HitRegion list"
  s_position :: real
  s_height :: real

definition separated_addHitRegion ::
  "'d SeparatedInteractionsEngine \<Rightarrow> RegionTypes \<Rightarrow> 'd \<Rightarrow> real \<Rightarrow> real \<Rightarrow> real \<Rightarrow> real
     \<Rightarrow> CursorTypes option \<Rightarrow> 'd SeparatedInteractionsEngine" where
  "separated_addHitRegion inst t d x y w h cursor =
     inst\<lparr>s_hitRegions := s_hitRegions inst @
        [\<lparr>rtype = t, rdata = d, rx = x, ry = y, rw = w, rh = h, rcursor = cursor,
          rid = Some (s_id inst)\<rparr>]\<rparr>"

record 'd InteractionsEngine =
  hitRegions :: "'d HitRegion list"
  instances :: "'d SeparatedInteractionsEngine list"
  mouse :: Mouse
  hoveredRegion :: "'d HitRegion option"
  hoveredInstance :: "'d SeparatedInteractionsEngine option"
  currentCursor :: "CursorTypes option"
  canvas_cursor :: "CursorTypes option"

definition addHitRegion ::
  "'d InteractionsEngine \<Rightarrow> RegionTypes \<Rightarrow> 'd \<Rightarrow> real \<Rightarrow> real \<Rightarrow> real \<Rightarrow> real
     \<Rightarrow> CursorTypes option \<Rightarrow> 'd InteractionsEngine" where
  "addHitRegion ie t d x y w h cursor =
     ie\<lparr>hitRegions := hitRegions ie @
        [\<lparr>rtype = t, rdata = d, rx = x, ry = y, rw = w, rh = h, rcursor = cursor,
          rid = None\<rparr>]\<rparr>"

text \<open>
  \<open>getHoveredRegion\<close>: the first region of the root engine under the mouse, else the
  first region under the mouse of the first instance whose vertical band holds the
  mouse (this instance is stored in \<open>hoveredInstance\<close>), else \<open>null\<close>.
\<close>

definition getHoveredRegion ::
  "'d InteractionsEngine \<Rightarrow> 'd HitRegion option \<times> 'd InteractionsEngine" where
  "getHoveredRegion ie =
     (case find (\<lambda>r. mouse_x (mouse ie) \<ge> rx r \<and>
                     mouse_x (mouse ie) \<le> double_round (rx r + rw r) \<and>
                     mouse_y (mouse ie) \<ge> ry r \<and>
                     mouse_y (mouse ie) \<le> double_round (ry r + rh r))
             (hitRegions ie) of
        Some r \<Rightarrow> (Some r, ie)
      | None \<Rightarrow>
          (let inst = find (\<lambda>i. s_position i \<le> mouse_y (mouse ie) \<and>
                                 double_round (s_height i + s_position i) \<ge> mouse_y (mouse ie))
                        (instances ie);
               ie1 = ie\<lparr>hoveredInstance := inst\<rparr>
           in case inst of
                None \<Rightarrow> (None, ie1)
              | Some i \<Rightarrow>
                  (find (\<lambda>r. mouse_x (mouse ie) \<ge> rx r \<and>
                             mouse_x (mouse ie) \<le> double_round (rx r + rw r) \<and>
                             mouse_y (mouse ie) \<ge> double_round (ry r + s_position i) \<and>
                             mouse_y (mouse ie) \<le>
                               double_round (double_round (ry r + rh r) + s_position i))
                     (s_hitRegions i),
                   ie1)))"

definition clearCursor :: "'d InteractionsEngine \<Rightarrow> 'd InteractionsEngine" where
  "clearCursor ie =
     (case getHoveredRegion ie of (hovered, ie1) \<Rightarrow>
        ie1\<lparr>currentCursor := None,
            canvas_cursor := (case hovered of None \<Rightarrow> None | Some r \<Rightarrow> rcursor r)\<rparr>)"

text \<open>
  What \<open>checkRegionHover\<close> does to the outside: the \<open>hover\<close> events it emits, with
  the region and the mouse, and its calls of \<open>renderEngine.partialRender()\<close>.
\<close>

datatype 'd effect = EmitHover "'d HitRegion option" Mouse | PartialRender

definition checkRegionHover ::
  "'d InteractionsEngine \<Rightarrow> 'd effect list \<times> 'd InteractionsEngine" where
  "checkRegionHover ie0 =
     (case getHoveredRegion ie0 of (hovered, ie) \<Rightarrow>
        (let out1 =
               (case hovered of
                  None \<Rightarrow> []
                | Some r \<Rightarrow>
                    (case hoveredRegion ie of
                       None \<Rightarrow> []
                     | Some old \<Rightarrow> if rid r \<noteq> rid old then [EmitHover None (mouse ie)] else []))
         in case hovered of
              Some r \<Rightarrow>
                (let ie1 = (if currentCursor ie = None \<and> rcursor r \<noteq> None
                            then ie\<lparr>canvas_cursor := rcursor r\<rparr>
                            else if currentCursor ie = None then clearCursor ie
                            else ie);
                     ie2 = ie1\<lparr>hoveredRegion := Some r\<rparr>
                 in (out1 @ [EmitHover (Some r) (mouse ie2), PartialRender], ie2))
            | None \<Rightarrow>
                (case hoveredRegion ie of
                   Some old \<Rightarrow>
                     (let ie1 = (if currentCursor ie = None then clearCursor ie else ie);
                          ie2 = ie1\<lparr>hoveredRegion := None\<rparr>
                      in (out1 @ [EmitHover None (mouse ie2), PartialRender], ie2))
                 | None \<Rightarrow> (out1, ie))))"

text \<open>
  Between two calls of \<open>checkRegionHover\<close> the rest of the program moves the mouse
  (\<open>handleMouseMove\<close>), rebuilds the hit regions and the panels, and sets or clears
  the cursor; \<open>hoveredRegion\<close> is written by \<open>checkRegionHover\<close> only (and by
  \<open>reset\<close> in the constructor). A \<open>surroundings\<close> value is one such change, and
  \<open>hover_run\<close> collects the effects of one \<open>checkRegionHover\<close> after each.
\<close>

record 'd surroundings =
  new_mouse :: Mouse
  new_hitRegions :: "'d HitRegion list"
  new_instances :: "'d SeparatedInteractionsEngine list"
  new_currentCursor :: "CursorTypes option"

definition apply_surroundings ::
  "'d surroundings \<Rightarrow> 'd InteractionsEngine \<Rightarrow> 'd InteractionsEngine" where
  "apply_surroundings c ie =
     ie\<lparr>mouse := new_mouse c, hitRegions := new_hitRegions c, instances := new_instances c,
        currentCursor := new_currentCursor c\<rparr>"

fun hover_run :: "'d surroundings list \<Rightarrow> 'd InteractionsEngine \<Rightarrow> 'd effect list" where
  "hover_run [] ie = []"
| "hover_run (c # cs) ie =
     (case checkRegionHover (apply_surroundings c ie) of (out, ie') \<Rightarrow> out @ hover_run cs ie')"

fun hover_events :: "'d effect list \<Rightarrow> 'd HitRegion option list" where
  "hover_events [] = []"
| "hover_events (EmitHover r m # es) = r # hover_events es"
| "hover_events (PartialRender # es) = hover_events es"

section \<open>Notions used to state the properties\<close>

subsection \<open>Depth in the forest and the order of the flat tree\<close>

text \<open>
  The intervals at depth \<open>d\<close> of a forest, read off the forest alone: the roots are at
  depth 0, and the intervals at depth \<open>d + 1\<close> are the children of the roots' subtrees
  at depth \<open>d\<close>.
\<close>

definition child_list :: "FlameChartNode \<Rightarrow> FlameChartNode list" where
  "child_list n = (case children n of None \<Rightarrow> [] | Some cs \<Rightarrow> cs)"

fun nodes_at_depth :: "nat \<Rightarrow> FlameChartNode list \<Rightarrow> FlameChartNode list" where
  "nodes_at_depth 0 forest = forest"
| "nodes_at_depth (Suc d) forest = nodes_at_depth d (concat (map child_list forest))"

text \<open>The order \<open>(level ascending, start ascending)\<close>.\<close>

definition level_start_le :: "FlatTreeNode \<Rightarrow> FlatTreeNode \<Rightarrow> bool" where
  "level_start_le a b =
     (level a < level b \<or> (level a = level b \<and> start (source a) \<le> start (source b)))"

text \<open>The intervals of the flat nodes that carry level \<open>d\<close>.\<close>

definition at_level :: "nat \<Rightarrow> FlatTreeNode list \<Rightarrow> FlameChartNode multiset" where
  "at_level d ns = mset (map source (filter (\<lambda>n. level n = d) ns))"

text \<open>A flat node as \<open>flatTree\<close> builds it: \<open>end\<close> is the rounded \<open>start + duration\<close>.\<close>

definition well_formed :: "FlatTreeNode \<Rightarrow> bool" where
  "well_formed n = (node_end n = double_round (start (source n) + duration (source n)))"

subsection \<open>Runs of a sequence\<close>

text \<open>
  A list of runs is cut by a relation \<open>R\<close> on neighbours when no run is empty, any two
  neighbours inside a run are related, and the last element of a run is not related to
  the first element of the next run.
\<close>

definition runs_ok :: "('a \<Rightarrow> 'a \<Rightarrow> bool) \<Rightarrow> 'a list list \<Rightarrow> bool" where
  "runs_ok R cs =
     ((\<forall>c\<in>set cs. c \<noteq> [] \<and> successively R c) \<and>
      successively (\<lambda>c1 c2. \<not> R (last c1) (hd c2)) cs)"

text \<open>The test of \<open>metaClusterizeFlatTree\<close> on two neighbours.\<close>

definition same_meta ::
  "(FlatTreeNode \<Rightarrow> FlatTreeNode \<Rightarrow> bool) \<Rightarrow> FlatTreeNode \<Rightarrow> FlatTreeNode \<Rightarrow> bool" where
  "same_meta condition a b = (level a = level b \<and> condition a b)"

text \<open>
  The test of \<open>clusterizeFlatTree\<close> on two neighbours, as the code writes it
  (\<open>code_merges\<close>, with the end of the previous node computed from its interval), and
  as the property states it (\<open>merges\<close>: the pixel gap from the end of the previous node
  to the start of the current one is below \<open>stickDistance\<close>, and the pixel widths
  \<open>duration * zoom\<close> of both are below \<open>minBlockSize\<close>), each operation rounded as
  the code performs it.
\<close>

definition code_merges ::
  "real \<Rightarrow> real \<Rightarrow> real \<Rightarrow> FlatTreeNode \<Rightarrow> FlatTreeNode \<Rightarrow> bool" where
  "code_merges z stickDistance minBlockSize prev node =
     (double_round
        (double_round
           (start (source node) - double_round (start (source prev) + duration (source prev))) * z)
         < stickDistance \<and>
      double_round (duration (source node) * z) < minBlockSize \<and>
      double_round (duration (source prev) * z) < minBlockSize)"

definition merges :: "real \<Rightarrow> real \<Rightarrow> real \<Rightarrow> FlatTreeNode \<Rightarrow> FlatTreeNode \<Rightarrow> bool" where
  "merges z stickDistance minBlockSize prev node =
     (double_round (double_round (start (source node) - node_end prev) * z) < stickDistance \<and>
      double_round (duration (source prev) * z) < minBlockSize \<and>
      double_round (duration (source node) * z) < minBlockSize)"

text \<open>
  The invariant of the scan of one meta-cluster: \<open>A\<close> is the accumulator at the start
  of the meta-cluster and \<open>G\<close> the clusters opened since; the open cluster is the last
  one of \<open>G\<close>, \<open>lastNode\<close> is its last node and \<open>index\<close> is its length.
\<close>

definition scan_inv ::
  "FlatTreeNode list list \<Rightarrow> FlatTreeNode list list \<Rightarrow> scan_state \<Rightarrow> bool" where
  "scan_inv A G st =
     (acc st = A @ G \<and>
      (if G = [] then lastCluster st = None \<and> lastNode st = None
       else lastCluster st = Some (last G) \<and> lastNode st = Some (last (last G)) \<and>
            cl_index st = length (last G)))"

text \<open>The render cluster that the final \<open>map\<close> builds from a node list that is not empty.\<close>

definition cluster_of :: "FlatTreeNode list \<Rightarrow> ClusterizedFlatTreeNode" where
  "cluster_of ns =
     \<lparr>nodes = ns, cstart = start (source (hd ns)),
      cend = double_round
               (start (source (hd ns)) +
                double_round
                  (double_round (start (source (last ns)) + duration (source (last ns)))
                   - start (source (hd ns)))),
      cduration = double_round
                    (double_round (start (source (last ns)) + duration (source (last ns)))
                     - start (source (hd ns))),
      ctype = ntype (source (hd ns)), ccolor = color (source (hd ns)), clevel = level (hd ns)\<rparr>"

text \<open>
  What render clustering promises for the nodes \<open>ns\<close> of one meta-cluster and the
  clusters \<open>cs\<close> made from them: the clusters hold the visible nodes in order; inside a
  cluster neighbours merge; across a cluster boundary they do not; the start of a
  cluster is the start of its first node, its duration is the rounded difference from
  there to the end of its last node, and its end is the rounded \<open>start + duration\<close>,
  which is the end of its last node up to two rounding steps (relative errors of at
  most \<open>2 ^ -53\<close>, and an underflow term).
\<close>

definition render_clusters_ok ::
  "real \<Rightarrow> real \<Rightarrow> real \<Rightarrow> real \<Rightarrow> real \<Rightarrow> FlatTreeNode list
     \<Rightarrow> ClusterizedFlatTreeNode list \<Rightarrow> bool" where
  "render_clusters_ok z s e stickDistance minBlockSize ns cs =
     (concat (map nodes cs) = filter (\<lambda>n. checkNodeTimeboundNesting n s e) ns \<and>
      (\<forall>c\<in>set cs.
          nodes c \<noteq> [] \<and>
          successively (merges z stickDistance minBlockSize) (nodes c) \<and>
          cduration c =
            double_round (node_end (last (nodes c)) - start (source (hd (nodes c)))) \<and>
          cstart c = start (source (hd (nodes c))) \<and>
          cend c = double_round (cstart c + cduration c) \<and>
          \<bar>cend c - node_end (last (nodes c))\<bar>
            \<le> (\<bar>node_end (last (nodes c))\<bar> +
                2 * \<bar>node_end (last (nodes c)) - cstart c\<bar>) / 2 ^ 53 + 3 / 2 ^ 1075) \<and>
      successively
        (\<lambda>c1 c2. \<not> merges z stickDistance minBlockSize (last (nodes c1)) (hd (nodes c2))) cs)"

text \<open>
  What re-clustering makes of one cluster: nothing when the cluster does not overlap
  the visible range, the cluster itself when its on-screen width is at most
  \<open>MIN_CLUSTER_SIZE\<close>, and the render clusters of its own nodes otherwise.
\<close>

definition reclustered_as ::
  "real \<Rightarrow> real \<Rightarrow> real \<Rightarrow> real option \<Rightarrow> real option \<Rightarrow> ClusterizedFlatTreeNode
     \<Rightarrow> ClusterizedFlatTreeNode list \<Rightarrow> bool" where
  "reclustered_as z s e stickDistance minBlockSize c part =
     (if checkClusterTimeboundNesting c s e then
        (if double_round (cduration c * z) \<le> MIN_CLUSTER_SIZE then part = [c]
         else clusterizeFlatTree [c] z (Some s) (Some e) stickDistance minBlockSize = Some part)
      else part = [])"

subsection \<open>Hover emissions\<close>

text \<open>
  Two consecutive \<open>hover\<close> emissions are compatible when one of them is
  \<open>hover(null)\<close> or both regions carry the same id.
\<close>

definition same_id_or_null :: "'d HitRegion option \<Rightarrow> 'd HitRegion option \<Rightarrow> bool" where
  "same_id_or_null a b =
     (case a of
        None \<Rightarrow> True
      | Some r1 \<Rightarrow> (case b of None \<Rightarrow> True | Some r2 \<Rightarrow> rid r1 = rid r2))"

text \<open>
  The \<open>hover\<close> emissions of one \<open>checkRegionHover\<close>, from the hovered region \<open>old\<close>
  and the resolved region \<open>new\<close>.
\<close>

definition hover_emitted ::
  "'d HitRegion option \<Rightarrow> 'd HitRegion option \<Rightarrow> 'd HitRegion option list" where
  "hover_emitted old new =
     (case new of
        Some r \<Rightarrow>
          (case old of
             Some p \<Rightarrow> if rid r \<noteq> rid p then [None, Some r] else [Some r]
           | None \<Rightarrow> [Some r])
      | None \<Rightarrow> (case old of Some p \<Rightarrow> [None] | None \<Rightarrow> []))"

subsection \<open>Example values\<close>

text \<open>
  A root from 0 to 10 with two children given in descending order of start, and the
  three flat nodes that \<open>flatTree\<close> builds from it.
\<close>

definition leaf_x :: FlameChartNode where
  "leaf_x = FlameChartNode ''x'' 5 1 None None None"

definition leaf_y :: FlameChartNode where
  "leaf_y = FlameChartNode ''y'' 1 2 None None None"

definition tree_r :: FlameChartNode where
  "tree_r = FlameChartNode ''r'' 0 10 None None (Some [leaf_x, leaf_y])"

definition flat_r :: FlatTreeNode where
  "flat_r = FlatTreeNode tree_r 10 None 0 0"

definition flat_x :: FlatTreeNode where
  "flat_x = FlatTreeNode leaf_x 6 (Some flat_r) 1 1"

definition flat_y :: FlatTreeNode where
  "flat_y = FlatTreeNode leaf_y 3 (Some flat_r) 1 2"

text \<open>The meta-cluster of the two children, and their render cluster at zoom 1/16.\<close>

definition meta_yx :: MetaClusterizedFlatTreeNode where
  "meta_yx = \<lparr>nodes = [flat_y, flat_x]\<rparr>"

definition cluster_yx :: ClusterizedFlatTreeNode where
  "cluster_yx = \<lparr>nodes = [flat_y, flat_x], cstart = 1, cend = 6, cduration = 5,
      ctype = None, ccolor = None, clevel = 1\<rparr>"

text \<open>
  Two nodes whose numbers are the doubles written \<open>0.1\<close>, \<open>0.4\<close> and \<open>0.05\<close>: the
  first starts at \<open>0.1\<close> with duration 0, the second starts at \<open>0.4\<close> with duration
  \<open>0.05\<close> and ends at the double \<open>0.45\<close>; their meta-cluster and their render
  cluster at zoom 1/2, of duration \<open>0.35\<close> and end \<open>0.44999999999999996\<close>.
\<close>

definition node_p :: FlatTreeNode where
  "node_p = FlatTreeNode
      (FlameChartNode ''p'' (3602879701896397 / 36028797018963968) 0 None None None)
      (3602879701896397 / 36028797018963968) None 0 0"

definition node_q :: FlatTreeNode where
  "node_q = FlatTreeNode
      (FlameChartNode ''q'' (3602879701896397 / 9007199254740992)
         (3602879701896397 / 72057594037927936) None None None)
      (8106479329266893 / 18014398509481984) None 0 1"

definition meta_pq :: MetaClusterizedFlatTreeNode where
  "meta_pq = \<lparr>nodes = [node_p, node_q]\<rparr>"

definition cluster_pq :: ClusterizedFlatTreeNode where
  "cluster_pq = \<lparr>nodes = [node_p, node_q], cstart = 3602879701896397 / 36028797018963968,
      cend = 2026619832316723 / 4503599627370496,
      cduration = 3152519739159347 / 9007199254740992,
      ctype = None, ccolor = None, clevel = 0\<rparr>"

text \<open>
  Two adjacent nodes of duration 1, the cluster of both, and the clusters of each.
\<close>

definition node_a :: FlatTreeNode where
  "node_a = FlatTreeNode (FlameChartNode ''a'' 0 1 None None None) 1 None 0 0"

definition node_b :: FlatTreeNode where
  "node_b = FlatTreeNode (FlameChartNode ''b'' 1 1 None None None) 2 None 0 1"

definition wide_cluster :: ClusterizedFlatTreeNode where
  "wide_cluster = \<lparr>nodes = [node_a, node_b], cstart = 0, cend = 2, cduration = 2,
      ctype = None, ccolor = None, clevel = 0\<rparr>"

definition cluster_a :: ClusterizedFlatTreeNode where
  "cluster_a = \<lparr>nodes = [node_a], cstart = 0, cend = 1, cduration = 1,
      ctype = None, ccolor = None, clevel = 0\<rparr>"

definition cluster_b :: ClusterizedFlatTreeNode where
  "cluster_b = \<lparr>nodes = [node_b], cstart = 1, cend = 2, cduration = 1,
      ctype = None, ccolor = None, clevel = 0\<rparr>"

text \<open>
  Root engines without panels: one scrolled to time 1 at zoom 2; one at the fit of the
  extent 0..10 on 100 pixels, with the accuracy at \<open>MAX_ACCURACY\<close>; one on an empty
  extent, at its initial zoom 1; and one zoomed in to twice the fit.
\<close>

definition engine_A :: RenderEngine where
  "engine_A = \<lparr>zoom = 2, positionX = 1, vmin = 0, vmax = 10, width = 20, height = 100,
      child_engines = [], accuracy = 0, plugin_bounds = []\<rparr>"

definition engine_fit :: RenderEngine where
  "engine_fit = \<lparr>zoom = 10, positionX = 0, vmin = 0, vmax = 10, width = 100, height = 100,
      child_engines = [], accuracy = 6, plugin_bounds = []\<rparr>"

definition engine_empty :: RenderEngine where
  "engine_empty = \<lparr>zoom = 1, positionX = 0, vmin = 0, vmax = 0, width = 100, height = 100,
      child_engines = [], accuracy = 0, plugin_bounds = []\<rparr>"

definition engine_zoomed :: RenderEngine where
  "engine_zoomed = \<lparr>zoom = 20, positionX = 2, vmin = 0, vmax = 10, width = 100, height = 100,
      child_engines = [], accuracy = 0, plugin_bounds = []\<rparr>"

text \<open>
  An engine at the zoom \<open>0.5000000000000001\<close>, the double \<open>(2 ^ 52 + 1) / 2 ^ 53\<close>, and
  one at zoom 2 on the extent 0..100 with 100 pixels.
\<close>

definition engine_half :: RenderEngine where
  "engine_half = \<lparr>zoom = 4503599627370497 / 9007199254740992, positionX = 0, vmin = 0,
      vmax = 10, width = 100, height = 100, child_engines = [], accuracy = 0,
      plugin_bounds = []\<rparr>"

definition engine_pan :: RenderEngine where
  "engine_pan = \<lparr>zoom = 2, positionX = 0, vmin = 0, vmax = 100, width = 100, height = 100,
      child_engines = [], accuracy = 0, plugin_bounds = []\<rparr>"

text \<open>
  Two panels, at the vertical bands 0..10 and 20..30: the first has added two regions,
  the second one region.
\<close>

definition region_A :: "nat HitRegion" where
  "region_A = \<lparr>rtype = CLUSTER, rdata = 1, rx = 0, ry = 0, rw = 2, rh = 2, rcursor = None,
      rid = Some 0\<rparr>"

definition region_A2 :: "nat HitRegion" where
  "region_A2 = \<lparr>rtype = CLUSTER, rdata = 2, rx = 5, ry = 0, rw = 2, rh = 2, rcursor = None,
      rid = Some 0\<rparr>"

definition region_B :: "nat HitRegion" where
  "region_B = \<lparr>rtype = CLUSTER, rdata = 3, rx = 0, ry = 0, rw = 2, rh = 2, rcursor = None,
      rid = Some 1\<rparr>"

definition panels :: "nat SeparatedInteractionsEngine list" where
  "panels =
     [\<lparr>s_id = 0, s_hitRegions = [region_A, region_A2], s_position = 0, s_height = 10\<rparr>,
      \<lparr>s_id = 1, s_hitRegions = [region_B], s_position = 20, s_height = 10\<rparr>]"

definition mouse_at :: "real \<Rightarrow> real \<Rightarrow> nat surroundings" where
  "mouse_at x y = \<lparr>new_mouse = \<lparr>mouse_x = x, mouse_y = y\<rparr>, new_hitRegions = [],
      new_instances = panels, new_currentCursor = None\<rparr>"

definition idle_engine :: "nat InteractionsEngine" where
  "idle_engine = \<lparr>hitRegions = [], instances = [], mouse = \<lparr>mouse_x = 0, mouse_y = 0\<rparr>,
      hoveredRegion = None, hoveredInstance = None, currentCursor = None,
      canvas_cursor = None\<rparr>"

definition hovering_A :: "nat InteractionsEngine" where
  "hovering_A = \<lparr>hitRegions = [], instances = panels, mouse = \<lparr>mouse_x = 1, mouse_y = 21\<rparr>,
      hoveredRegion = Some region_A, hoveredInstance = None, currentCursor = None,
      canvas_cursor = None\<rparr>"

text \<open>
  An interval of negative duration, and a plugin that holds the example tree, attached
  to the only panel of a root engine.
\<close>

definition bad_node :: FlameChartNode where
  "bad_node = FlameChartNode ''bad'' 0 (-1) None None None"

definition panel_engine :: OffscreenRenderEngine where
  "panel_engine = \<lparr>zoom = 10, positionX = 0, vmin = 0, vmax = 10, width = 100, height = 50,
      flexible = False, collapsed = False, position = 0\<rparr>"

definition main_engine :: RenderEngine where
  "main_engine = \<lparr>zoom = 10, positionX = 0, vmin = 0, vmax = 10, width = 100, height = 100,
      child_engines = [panel_engine], accuracy = 0, plugin_bounds = [(Some 0, Some 10)]\<rparr>"

definition plugin_r :: FlameChartPlugin where
  "plugin_r = \<lparr>data = [tree_r], p_flatTree = [flat_r, flat_y, flat_x], p_min = 0, p_max = 10,
      positionY = 0, selectedRegion = None, colors = Map.empty,
      metaClusterizedFlatTree = [], initialClusterizedFlatTree = [],
      actualClusterizedFlatTree = [], engine_index = 0\<rparr>"

section \<open>Rounding to double precision\<close>

text \<open>
  Powers of two, the binade of a number, and rounding to the nearest integer.
\<close>

lemma pow2_powr: "pow2 k = 2 powr (of_int k)"
proof (cases "0 \<le> k")
  case True
  then show ?thesis by (simp add: pow2_def powr_realpow [symmetric])
next
  case False
  then have "(2::real) powr (of_int k) = 1 / 2 powr (of_int (- k))"
    by (simp add: powr_minus_divide)
  also have "\<dots> = 1 / 2 ^ nat (- k)"
    using False by (simp add: powr_realpow [symmetric])
  finally show ?thesis using False by (simp add: pow2_def)
qed

lemma pow2_pos [simp]: "0 < pow2 k"
  by (simp add: pow2_powr)

lemma pow2_nonzero [simp]: "pow2 k \<noteq> 0"
  using pow2_pos [of k] by linarith

lemma pow2_nonneg [simp]: "0 \<le> pow2 k"
  using pow2_pos [of k] by linarith

lemma pow2_add: "pow2 (a + b) = pow2 a * pow2 b"
  by (simp add: pow2_powr powr_add)

lemma pow2_shift: "pow2 53 * pow2 (e - 52) = pow2 (e + 1)"
proof -
  have "53 + (e - 52) = e + 1" by simp
  then show ?thesis using pow2_add [of 53 "e - 52"] by (simp only:)
qed

lemma pow2_mono: "a \<le> b \<Longrightarrow> pow2 a \<le> pow2 b"
  by (simp add: pow2_powr)

lemma pow2_0 [simp]: "pow2 0 = 1"
  by (simp add: pow2_def)

lemma floor_log_bracket:
  assumes "x \<noteq> 0"
  shows "pow2 \<lfloor>log 2 \<bar>x\<bar>\<rfloor> \<le> \<bar>x\<bar> \<and> \<bar>x\<bar> < pow2 (\<lfloor>log 2 \<bar>x\<bar>\<rfloor> + 1)"
  using assms floor_log_eq_powr_iff [of "\<bar>x\<bar>" 2 "\<lfloor>log 2 \<bar>x\<bar>\<rfloor>"]
  by (simp add: pow2_powr)

lemma floor_log_eq:
  assumes "pow2 e \<le> \<bar>x\<bar>" and "\<bar>x\<bar> < pow2 (e + 1)"
  shows "\<lfloor>log 2 \<bar>x\<bar>\<rfloor> = e"
proof -
  have "0 < \<bar>x\<bar>" using assms(1) pow2_pos [of e] by linarith
  then show ?thesis
    using assms floor_log_eq_powr_iff [of "\<bar>x\<bar>" 2 e] by (simp add: pow2_powr)
qed

text \<open>
  The rounding of a number whose binade is known: this is how \<open>double_round\<close> is
  evaluated at a concrete number.
\<close>

lemma double_round_at:
  assumes "pow2 e \<le> \<bar>x\<bar>" and "\<bar>x\<bar> < pow2 (e + 1)" and "- 1022 \<le> e"
  shows "double_round x = of_int (round_even (x / pow2 (e - 52))) * pow2 (e - 52)"
proof -
  have "x \<noteq> 0" using assms(1) pow2_pos [of e] by (auto simp del: pow2_pos)
  moreover have "double_exponent x = e"
    using floor_log_eq [OF assms(1,2)] assms(3) by (simp add: double_exponent_def)
  ultimately show ?thesis by (simp add: double_round_def)
qed

lemma round_even_of_int [simp]: "round_even (of_int n) = n"
  by (simp add: round_even_def)

lemma round_even_near: "\<bar>of_int (round_even y) - y\<bar> \<le> 1 / 2"
  unfolding round_even_def Let_def by (auto; linarith)

lemma round_even_numeral [simp]: "round_even (numeral n) = numeral n"
  using round_even_of_int [of "numeral n"] by simp

lemma round_even_mono: "x \<le> y \<Longrightarrow> round_even x \<le> round_even y"
proof -
  assume xy: "x \<le> y"
  have f: "\<lfloor>x\<rfloor> \<le> \<lfloor>y\<rfloor>" using xy by (rule floor_mono)
  show ?thesis
  proof (cases "\<lfloor>x\<rfloor> = \<lfloor>y\<rfloor>")
    case True
    then show ?thesis using xy unfolding round_even_def Let_def by auto
  next
    case False
    then have "\<lfloor>x\<rfloor> + 1 \<le> \<lfloor>y\<rfloor>" using f by simp
    moreover have "round_even x \<le> \<lfloor>x\<rfloor> + 1" unfolding round_even_def Let_def by auto
    moreover have "\<lfloor>y\<rfloor> \<le> round_even y" unfolding round_even_def Let_def by auto
    ultimately show ?thesis by linarith
  qed
qed

lemma round_even_minus: "round_even (- y) = - round_even y"
proof (cases "y = of_int \<lfloor>y\<rfloor>")
  case True
  then obtain n where "y = of_int n" ..
  then show ?thesis using round_even_of_int [of "- n"] by simp
next
  case False
  then have fl: "\<lfloor>- y\<rfloor> = - \<lfloor>y\<rfloor> - 1"
    by linarith
  have fr: "- y - of_int (- \<lfloor>y\<rfloor> - 1) = 1 - (y - of_int \<lfloor>y\<rfloor>)" by simp
  have ev: "even (- \<lfloor>y\<rfloor> - 1) = odd \<lfloor>y\<rfloor>" by simp
  show ?thesis
    unfolding round_even_def Let_def fl fr ev by auto
qed

lemma round_even_ge: "of_int n \<le> y \<Longrightarrow> n \<le> round_even y"
  using round_even_mono [of "of_int n" y] by simp

lemma round_even_le: "y \<le> of_int n \<Longrightarrow> round_even y \<le> n"
  using round_even_mono [of y "of_int n"] by simp

text \<open>
  Rounding is odd and monotone: it never reverses the order of two numbers.
\<close>

lemma double_exponent_minus [simp]: "double_exponent (- x) = double_exponent x"
  by (simp add: double_exponent_def)

lemma double_round_minus [simp]: "double_round (- x) = - double_round x"
  by (simp add: double_round_def round_even_minus)

lemma double_round_0 [simp]: "double_round 0 = 0"
  by (simp add: double_round_def)

lemma double_exponent_bracket:
  assumes "x \<noteq> 0"
  shows "\<bar>x\<bar> < pow2 (double_exponent x + 1)"
proof -
  have "\<bar>x\<bar> < pow2 (\<lfloor>log 2 \<bar>x\<bar>\<rfloor> + 1)" using floor_log_bracket [OF assms] by simp
  also have "\<dots> \<le> pow2 (double_exponent x + 1)"
    by (rule pow2_mono) (simp add: double_exponent_def)
  finally show ?thesis .
qed

lemma double_exponent_mono:
  assumes "0 < x" and "x \<le> y"
  shows "double_exponent x \<le> double_exponent y"
proof -
  have "log 2 x \<le> log 2 y" using assms by simp
  then have "\<lfloor>log 2 \<bar>x\<bar>\<rfloor> \<le> \<lfloor>log 2 \<bar>y\<bar>\<rfloor>" using assms by (simp add: floor_mono)
  then show ?thesis by (simp add: double_exponent_def)
qed

lemma double_round_upper:
  assumes "0 < x"
  shows "double_round x \<le> pow2 (double_exponent x + 1)"
proof -
  let ?e = "double_exponent x"
  let ?q = "pow2 (?e - 52)"
  have "x < pow2 (?e + 1)" using double_exponent_bracket [of x] assms by simp
  then have "x < pow2 53 * ?q" by (simp only: pow2_shift)
  then have "x / ?q \<le> pow2 53" by (simp add: field_simps)
  moreover have "pow2 53 = of_int (2 ^ 53)" by (simp add: pow2_def)
  ultimately have "round_even (x / ?q) \<le> 2 ^ 53" using round_even_le by simp
  then have "of_int (round_even (x / ?q)) \<le> (of_int (2 ^ 53) :: real)" by (simp only: of_int_le_iff)
  then have "of_int (round_even (x / ?q)) \<le> pow2 53" by (simp add: pow2_def)
  then have "of_int (round_even (x / ?q)) * ?q \<le> pow2 53 * ?q"
    by (rule mult_right_mono) simp
  then show ?thesis using assms by (simp add: double_round_def pow2_shift)
qed

lemma double_round_lower:
  assumes "0 < x" and "- 1022 \<le> \<lfloor>log 2 x\<rfloor>"
  shows "pow2 \<lfloor>log 2 x\<rfloor> \<le> double_round x"
proof -
  let ?l = "\<lfloor>log 2 x\<rfloor>"
  let ?q = "pow2 (?l - 52)"
  have e: "double_exponent x = ?l" using assms by (simp add: double_exponent_def)
  have l: "pow2 52 * ?q = pow2 ?l" using pow2_add [of 52 "?l - 52"] by simp
  have "pow2 ?l \<le> x" using floor_log_bracket [of x] assms(1) by simp
  then have "pow2 52 * ?q \<le> x" by (simp only: l)
  then have "pow2 52 \<le> x / ?q" by (simp add: field_simps)
  moreover have "pow2 52 = of_int (2 ^ 52)" by (simp add: pow2_def)
  ultimately have "2 ^ 52 \<le> round_even (x / ?q)" using round_even_ge by simp
  then have "(of_int (2 ^ 52) :: real) \<le> of_int (round_even (x / ?q))" by (simp only: of_int_le_iff)
  then have "pow2 52 \<le> of_int (round_even (x / ?q))" by (simp add: pow2_def)
  then have "pow2 52 * ?q \<le> of_int (round_even (x / ?q)) * ?q"
    by (rule mult_right_mono) simp
  then show ?thesis using assms(1) by (simp add: double_round_def e l)
qed

lemma double_round_nonneg: "0 \<le> x \<Longrightarrow> 0 \<le> double_round x"
proof -
  assume x: "0 \<le> x"
  let ?q = "pow2 (double_exponent x - 52)"
  have "of_int 0 \<le> x / ?q" using x by simp
  then have "0 \<le> round_even (x / ?q)" by (rule round_even_ge)
  then show ?thesis by (simp add: double_round_def)
qed

lemma double_round_mono_pos:
  assumes "0 < x" and "x \<le> y"
  shows "double_round x \<le> double_round y"
proof (cases "double_exponent x = double_exponent y")
  case True
  let ?q = "pow2 (double_exponent y - 52)"
  have "x / ?q \<le> y / ?q" using assms(2) by (simp add: field_simps)
  then have "round_even (x / ?q) \<le> round_even (y / ?q)" by (rule round_even_mono)
  then have "of_int (round_even (x / ?q)) * ?q \<le> of_int (round_even (y / ?q)) * ?q"
    by (simp add: mult_right_mono)
  then show ?thesis using assms True by (simp add: double_round_def)
next
  case False
  then have lt: "double_exponent x + 1 \<le> double_exponent y"
    using double_exponent_mono [OF assms] by simp
  have y: "0 < y" using assms by simp
  have "- 1022 \<le> double_exponent x" by (simp add: double_exponent_def)
  then have "- 1022 < double_exponent y" using lt by simp
  then have ney: "double_exponent y = \<lfloor>log 2 y\<rfloor>" and big: "- 1022 \<le> \<lfloor>log 2 y\<rfloor>"
    using y by (simp_all add: double_exponent_def max_def split: if_splits)
  have "double_round x \<le> pow2 (double_exponent x + 1)"
    using double_round_upper [OF assms(1)] .
  also have "\<dots> \<le> pow2 (double_exponent y)" using lt by (rule pow2_mono)
  also have "\<dots> \<le> double_round y"
    using double_round_lower [OF y big] by (simp only: ney)
  finally show ?thesis .
qed

lemma double_round_mono: "x \<le> y \<Longrightarrow> double_round x \<le> double_round y"
proof -
  assume xy: "x \<le> y"
  consider "0 < x" | "y < 0" | "x \<le> 0" "0 \<le> y" by linarith
  then show ?thesis
  proof cases
    case 1
    then show ?thesis using xy by (rule double_round_mono_pos)
  next
    case 2
    then have "double_round (- y) \<le> double_round (- x)"
      using xy double_round_mono_pos [of "- y" "- x"] by simp
    then show ?thesis by (simp add: double_round_minus)
  next
    case 3
    have "0 \<le> double_round (- x)" using 3(1) double_round_nonneg [of "- x"] by simp
    then have "double_round x \<le> 0" by (simp add: double_round_minus)
    also have "0 \<le> double_round y" using 3(2) by (rule double_round_nonneg)
    finally show ?thesis .
  qed
qed

lemma pow2_1 [simp]: "pow2 1 = 2"
  by (simp add: pow2_def)

lemma pow2_of_nat: "pow2 (int n) = 2 ^ n"
  by (simp add: pow2_def)

lemma pow2_numeral: "pow2 (numeral n) = 2 ^ numeral n"
  by (simp add: pow2_def)

lemma pow2_neg_numeral: "pow2 (- numeral n) = 1 / 2 ^ numeral n"
  by (simp add: pow2_def)

lemma pow2_neg_1: "pow2 (- 1) = 1 / 2"
  by (simp add: pow2_def)

lemmas pow2_eval = pow2_numeral pow2_neg_numeral pow2_neg_1

lemma pow2_diff: "pow2 (a - b) = pow2 a / pow2 b"
proof -
  have "pow2 a = pow2 (a - b) * pow2 b" using pow2_add [of "a - b" b] by simp
  then show ?thesis by simp
qed

text \<open>
  The error of one rounding: at most the relative error \<open>2 ^ -53\<close> for a number in the
  normal range, and at most \<open>2 ^ -1075\<close> below it.
\<close>

lemma double_round_error: "\<bar>double_round x - x\<bar> \<le> \<bar>x\<bar> / 2 ^ 53 + 1 / 2 ^ 1075"
proof (cases "x = 0")
  case True
  then show ?thesis by simp
next
  case False
  let ?e = "double_exponent x"
  let ?q = "pow2 (?e - 52)"
  let ?r = "of_int (round_even (x / ?q)) :: real"
  have "\<bar>?r - x / ?q\<bar> \<le> 1 / 2" by (rule round_even_near)
  then have "\<bar>?r - x / ?q\<bar> * ?q \<le> (1 / 2) * ?q" by (rule mult_right_mono) simp
  moreover have "\<bar>?r - x / ?q\<bar> * ?q = \<bar>?r * ?q - x\<bar>"
  proof -
    have "\<bar>?r - x / ?q\<bar> * ?q = \<bar>(?r - x / ?q) * ?q\<bar>" by (simp add: abs_mult)
    also have "(?r - x / ?q) * ?q = ?r * ?q - x" by (simp add: field_simps)
    finally show ?thesis .
  qed
  ultimately have near: "\<bar>double_round x - x\<bar> \<le> ?q / 2"
    using False by (simp add: double_round_def)
  have q: "?q / 2 = pow2 ?e / 2 ^ 53"
  proof -
    have "?q = pow2 ?e / pow2 52" by (rule pow2_diff)
    then show ?thesis by (simp add: pow2_numeral)
  qed
  have "pow2 ?e / 2 ^ 53 \<le> \<bar>x\<bar> / 2 ^ 53 + 1 / 2 ^ 1075"
  proof (cases "- 1022 \<le> \<lfloor>log 2 \<bar>x\<bar>\<rfloor>")
    case True
    then have "?e = \<lfloor>log 2 \<bar>x\<bar>\<rfloor>" by (simp add: double_exponent_def)
    then have "pow2 ?e \<le> \<bar>x\<bar>" using floor_log_bracket [OF False] by simp
    then have "pow2 ?e / 2 ^ 53 \<le> \<bar>x\<bar> / 2 ^ 53" by (simp add: divide_right_mono)
    then show ?thesis by simp
  next
    case False
    then have "?e = - 1022" by (simp add: double_exponent_def)
    then have "pow2 ?e / 2 ^ 53 = 1 / 2 ^ 1075" by (simp add: pow2_neg_numeral)
    then show ?thesis by simp
  qed
  then show ?thesis using near q by linarith
qed

text \<open>
  The doubles are the fixed points: a number \<open>m * 2 ^ k\<close> with \<open>|m| < 2 ^ 53\<close> and
  \<open>k \<ge> -1074\<close> is not changed, in particular an integer below \<open>2 ^ 53\<close> in magnitude,
  and every rounded number is a double.
\<close>

lemma double_round_fix:
  assumes m: "\<bar>m\<bar> < 2 ^ 53" and k: "- 1074 \<le> k"
  shows "double_round (of_int m * pow2 k) = of_int m * pow2 k"
proof (cases "m = 0")
  case True
  then show ?thesis by simp
next
  case False
  let ?x = "of_int m * pow2 k :: real"
  let ?e = "double_exponent ?x"
  have x0: "?x \<noteq> 0" using False by simp
  have le: "?e - 52 \<le> k"
  proof (rule ccontr)
    assume "\<not> ?e - 52 \<le> k"
    then have gt: "k + 53 \<le> ?e" by simp
    then have "- 1022 < ?e" using k by simp
    then have "?e = \<lfloor>log 2 \<bar>?x\<bar>\<rfloor>" by (simp add: double_exponent_def max_def split: if_splits)
    then have "pow2 ?e \<le> \<bar>?x\<bar>" using floor_log_bracket [OF x0] by simp
    moreover have "pow2 (k + 53) \<le> pow2 ?e" using gt by (rule pow2_mono)
    ultimately have "pow2 (k + 53) \<le> \<bar>?x\<bar>" by linarith
    then have "pow2 53 * pow2 k \<le> \<bar>of_int m\<bar> * pow2 k"
      by (simp add: pow2_add abs_mult mult.commute)
    then have "pow2 53 \<le> \<bar>of_int m :: real\<bar>" by simp
    then have "(of_int (2 ^ 53) :: real) \<le> of_int \<bar>m\<bar>" by (simp add: pow2_numeral)
    then have "2 ^ 53 \<le> \<bar>m\<bar>" by (simp only: of_int_le_iff)
    then show False using m by simp
  qed
  define j where "j = nat (k - (?e - 52))"
  define q where "q = pow2 (?e - 52)"
  define p where "p = pow2 k"
  have kj: "k = (?e - 52) + int j" using le by (simp add: j_def)
  have "pow2 ((?e - 52) + int j) = pow2 (?e - 52) * pow2 (int j)" by (rule pow2_add)
  then have pq: "p = q * 2 ^ j" using kj by (simp add: pow2_of_nat p_def q_def)
  have q0: "q \<noteq> 0" by (simp add: q_def)
  have "of_int m * p / q = of_int (m * 2 ^ j)" using q0 by (simp add: pq)
  then have "round_even (of_int m * p / q) = m * 2 ^ j"
    by (simp only: round_even_of_int)
  then have "of_int (round_even (of_int m * p / q)) * q = of_int m * p"
    by (simp add: pq)
  then show ?thesis using x0 by (simp add: double_round_def p_def q_def)
qed

lemma double_round_of_int: "\<bar>m\<bar> < 2 ^ 53 \<Longrightarrow> double_round (of_int m) = of_int m"
  using double_round_fix [of m 0] by simp

lemma double_round_numeral [simp]:
  "numeral n < (9007199254740992 :: int) \<Longrightarrow> double_round (numeral n) = numeral n"
  using double_round_of_int [of "numeral n"] by simp

lemma double_round_1 [simp]: "double_round 1 = 1"
  using double_round_of_int [of 1] by simp

lemma double_round_dyadic:
  assumes "\<bar>m\<bar> < 2 ^ 53" and "k \<le> 1074"
  shows "double_round (of_int m / 2 ^ k) = of_int m / 2 ^ k"
proof -
  have "pow2 (- int k) = 1 / 2 ^ k" by (simp add: pow2_def)
  then show ?thesis using double_round_fix [of m "- int k"] assms by simp
qed

lemma double_round_idem_pos:
  assumes "0 < x"
  shows "double_round (double_round x) = double_round x"
proof -
  let ?e = "double_exponent x"
  let ?q = "pow2 (?e - 52)"
  let ?n = "round_even (x / ?q)"
  have r: "double_round x = of_int ?n * ?q" using assms by (simp add: double_round_def)
  have e: "- 1074 \<le> ?e - 52" by (simp add: double_exponent_def)
  have "of_int 0 \<le> x / ?q" using assms by simp
  then have n0: "0 \<le> ?n" by (rule round_even_ge)
  have "x < pow2 (?e + 1)" using double_exponent_bracket [of x] assms by simp
  then have "x < pow2 53 * ?q" by (simp only: pow2_shift)
  then have "x / ?q \<le> pow2 53" by (simp add: field_simps)
  moreover have "pow2 53 = of_int (2 ^ 53)" by (simp add: pow2_def)
  ultimately have n53: "?n \<le> 2 ^ 53" using round_even_le by simp
  show ?thesis
  proof (cases "?n = 2 ^ 53")
    case True
    then have "of_int ?n = pow2 53" by (simp add: pow2_numeral)
    then have "double_round x = of_int 1 * pow2 (?e + 1)" by (simp add: r pow2_shift)
    moreover have "double_round (of_int 1 * pow2 (?e + 1)) = of_int 1 * pow2 (?e + 1)"
      using e by (intro double_round_fix) simp_all
    ultimately show ?thesis by simp
  next
    case False
    then have "\<bar>?n\<bar> < 2 ^ 53" using n0 n53 by simp
    then have "double_round (of_int ?n * ?q) = of_int ?n * ?q" using e by (rule double_round_fix)
    then show ?thesis by (simp only: r)
  qed
qed

lemma double_round_idem [simp]: "double_round (double_round x) = double_round x"
proof -
  consider "0 < x" | "x = 0" | "x < 0" by linarith
  then show ?thesis
  proof cases
    case 1
    then show ?thesis by (rule double_round_idem_pos)
  next
    case 2
    then show ?thesis by simp
  next
    case 3
    then have "double_round (double_round (- x)) = double_round (- x)"
      using double_round_idem_pos [of "- x"] by simp
    then show ?thesis by (simp add: double_round_minus)
  qed
qed

section \<open>Flattening: order and levels\<close>

lemma flatTree_compare_le: "(flatTree_compare a b \<le> 0) = level_start_le a b"
  by (auto simp: flatTree_compare_def level_start_le_def)

lemma level_start_le_total: "level_start_le a b \<or> level_start_le b a"
  by (auto simp: level_start_le_def)

lemma level_start_le_trans: "level_start_le a b \<Longrightarrow> level_start_le b c \<Longrightarrow> level_start_le a c"
  by (auto simp: level_start_le_def)

lemma set_insert_by: "set (insert_by cmp x xs) = insert x (set xs)"
  by (induction xs) auto

lemma mset_insert_by: "mset (insert_by cmp x xs) = add_mset x (mset xs)"
  by (induction xs) auto

lemma mset_sort_by: "mset (sort_by cmp xs) = mset xs"
  by (induction xs) (auto simp: sort_by_def mset_insert_by)

lemma sorted_insert_by:
  "sorted_wrt level_start_le xs \<Longrightarrow> sorted_wrt level_start_le (insert_by flatTree_compare x xs)"
proof (induction xs)
  case Nil
  then show ?case by simp
next
  case (Cons y ys)
  show ?case
  proof (cases "flatTree_compare x y \<le> 0")
    case True
    then have xy: "level_start_le x y" by (simp add: flatTree_compare_le)
    have "\<forall>z\<in>set ys. level_start_le x z"
      using Cons.prems xy level_start_le_trans by auto
    with True xy Cons.prems show ?thesis by simp
  next
    case False
    then have yx: "level_start_le y x"
      using level_start_le_total [of x y] by (simp add: flatTree_compare_le)
    with False Cons show ?thesis by (auto simp: set_insert_by)
  qed
qed

lemma sorted_sort_by: "sorted_wrt level_start_le (sort_by flatTree_compare xs)"
proof (induction xs)
  case Nil
  show ?case by (simp add: sort_by_def)
next
  case (Cons x xs)
  then show ?case using sorted_insert_by [of "sort_by flatTree_compare xs" x]
    by (simp add: sort_by_def)
qed

lemma nodes_at_depth_append:
  "nodes_at_depth d (xs @ ys) = nodes_at_depth d xs @ nodes_at_depth d ys"
  by (induction d arbitrary: xs ys) auto

lemma nodes_at_depth_Nil [simp]: "nodes_at_depth d [] = []"
  by (induction d) auto

lemma at_level_append: "at_level d (xs @ ys) = at_level d xs + at_level d ys"
  by (simp add: at_level_def)

lemma nodes_at_depth_Cons:
  "nodes_at_depth d (x # xs) = nodes_at_depth d [x] @ nodes_at_depth d xs"
  using nodes_at_depth_append [of d "[x]" xs] by simp

lemma nodes_at_depth_single_Suc:
  "nodes_at_depth (Suc d) [x] = nodes_at_depth d (child_list x)"
  by simp

lemma walk_levels:
  "cb = flatTree_cb \<Longrightarrow> at_level d (fst (walk forest cb par lvl s)) =
     at_level d (fst s) + (if lvl \<le> d then mset (nodes_at_depth (d - lvl) forest) else {#})"
proof (induction forest cb par lvl s rule: walk.induct)
  case (1 cb par lvl s)
  then show ?case by simp
next
  case (2 child rest cb par lvl s)
  obtain res s1 where cb: "cb child par lvl s = (res, s1)" by (cases "cb child par lvl s")
  have s1: "fst s1 =
      fst s @ [FlatTreeNode child (double_round (start child + duration child)) par lvl (snd s)]"
    using cb "2.prems" by (auto simp: flatTree_cb_def Let_def)
  define s2 where "s2 = (case children child of None \<Rightarrow> s1
      | Some cs \<Rightarrow> walk cs cb (Some res) (lvl + 1) s1)"
  have w: "walk (child # rest) cb par lvl s = walk rest cb par lvl s2"
    using cb by (simp add: s2_def)
  have rest: "at_level d (fst (walk rest cb par lvl s2)) =
     at_level d (fst s2) + (if lvl \<le> d then mset (nodes_at_depth (d - lvl) rest) else {#})"
    using "2.IH"(2) [OF cb [symmetric] refl s2_def "2.prems"] .
  have kids: "at_level d (fst s2) =
     at_level d (fst s1) + (if lvl + 1 \<le> d then mset (nodes_at_depth (d - (lvl + 1)) (child_list child)) else {#})"
  proof (cases "children child")
    case None
    then show ?thesis by (simp add: s2_def child_list_def)
  next
    case (Some cs)
    then show ?thesis
      using "2.IH"(1) [OF cb [symmetric] refl Some "2.prems"]
      by (simp add: s2_def child_list_def)
  qed
  have one: "at_level d (fst s1) = at_level d (fst s) + (if lvl = d then {#child#} else {#})"
    by (simp add: s1 at_level_def)
  have single: "(if lvl \<le> d then mset (nodes_at_depth (d - lvl) [child]) else {#}) =
      (if lvl = d then {#child#} else {#}) +
      (if lvl + 1 \<le> d then mset (nodes_at_depth (d - (lvl + 1)) (child_list child)) else {#})"
  proof (cases "lvl \<le> d")
    case False then show ?thesis by simp
  next
    case True
    show ?thesis
    proof (cases "d - lvl")
      case 0
      with True show ?thesis by simp
    next
      case (Suc k)
      then have "d - (lvl + 1) = k" and "lvl + 1 \<le> d" and "lvl \<noteq> d" by simp_all
      with Suc True show ?thesis by (simp del: nodes_at_depth.simps add: nodes_at_depth_single_Suc)
    qed
  qed
  have split: "(if lvl \<le> d then mset (nodes_at_depth (d - lvl) (child # rest)) else {#}) =
     (if lvl \<le> d then mset (nodes_at_depth (d - lvl) [child]) else {#}) +
     (if lvl \<le> d then mset (nodes_at_depth (d - lvl) rest) else {#})"
    using nodes_at_depth_Cons [of "d - lvl" child rest] by simp
  show ?case
    unfolding w rest kids one split single by (simp add: ac_simps)
qed

lemma flatTree_levels:
  "mset (map source (filter (\<lambda>n. level n = d) (flatTree forest))) = mset (nodes_at_depth d forest)"
proof -
  have "mset (map source (filter (\<lambda>n. level n = d) (flatTree forest))) =
      image_mset source (filter_mset (\<lambda>n. level n = d) (mset (flatTree forest)))"
    by simp
  also have "\<dots> = at_level d (fst (walk forest flatTree_cb None 0 ([], 0)))"
    by (simp add: flatTree_def mset_sort_by at_level_def)
  also have "\<dots> = mset (nodes_at_depth d forest)"
    using walk_levels [OF refl, of d forest None 0 "([], 0)"] by (simp add: at_level_def)
  finally show ?thesis .
qed

text \<open>
  Claim C6. For any forest, the output of \<open>flatTree\<close> is sorted by level, and by
  start within a level; and the nodes that carry level \<open>d\<close> are exactly the intervals at
  depth \<open>d\<close> of the forest (roots at depth 0), with their multiplicities.
\<close>

theorem flatTree_sorted_by_level_start:
  "sorted_wrt level_start_le (flatTree forest) \<and>
   (\<forall>d. mset (map source (filter (\<lambda>n. level n = d) (flatTree forest))) =
        mset (nodes_at_depth d forest))"
  using sorted_sort_by flatTree_levels by (simp add: flatTree_def)

lemma flatTree_tree_r: "flatTree [tree_r] = [flat_r, flat_y, flat_x]"
  by (simp add: flatTree_def flatTree_cb_def sort_by_def flatTree_compare_def Let_def
        tree_r_def leaf_x_def leaf_y_def flat_r_def flat_x_def flat_y_def)

text \<open>
  The theorem of C6 at a root with two children given in descending order of start.
\<close>

theorem flatTree_sorted_witness:
  "flatTree [tree_r] = [flat_r, flat_y, flat_x] \<and>
   sorted_wrt level_start_le [flat_r, flat_y, flat_x] \<and>
   mset (map source (filter (\<lambda>n. level n = 1) [flat_r, flat_y, flat_x])) = {#leaf_x, leaf_y#}"
proof -
  have n: "nodes_at_depth 1 [tree_r] = [leaf_x, leaf_y]"
    by (simp add: child_list_def tree_r_def)
  note t = flatTree_sorted_by_level_start [of "[tree_r]"]
  from t have s: "sorted_wrt level_start_le (flatTree [tree_r])" by blast
  from t have "mset (map source (filter (\<lambda>n. level n = 1) (flatTree [tree_r]))) =
      mset (nodes_at_depth 1 [tree_r])" by blast
  then have m: "mset (map source (filter (\<lambda>n. level n = 1) [flat_r, flat_y, flat_x])) =
      {#leaf_x, leaf_y#}"
    unfolding flatTree_tree_r n by simp
  show ?thesis using s m flatTree_tree_r by simp
qed

section \<open>Meta-clustering\<close>

lemma runs_ok_Nil: "runs_ok R []"
  by (simp add: runs_ok_def)

lemma runs_ok_new:
  assumes "runs_ok R cs" and "cs \<noteq> [] \<Longrightarrow> \<not> R (last (last cs)) x"
  shows "runs_ok R (cs @ [[x]])"
  using assms by (auto simp: runs_ok_def successively_append_iff)

lemma runs_ok_extend:
  assumes "runs_ok R cs" and "cs \<noteq> []" and "R (last (last cs)) x"
  shows "runs_ok R (butlast cs @ [last cs @ [x]])"
proof -
  obtain bs c where cs: "cs = bs @ [c]"
    using assms(2) by (metis append_butlast_last_id)
  have c: "c \<noteq> []" "successively R c"
    using assms(1) by (auto simp: cs runs_ok_def)
  have "hd (c @ [x]) = hd c" using c by simp
  with assms c show ?thesis
    by (auto simp: cs runs_ok_def successively_append_iff)
qed

lemma concat_extend: "cs \<noteq> [] \<Longrightarrow> concat (butlast cs @ [last cs @ [x]]) = concat cs @ [x]"
  by (induction cs rule: rev_induct) auto

lemma metaClusterize_step_inv:
  assumes "runs_ok (same_meta condition) cs"
  shows "runs_ok (same_meta condition) (metaClusterize_step condition cs x) \<and>
         concat (metaClusterize_step condition cs x) = concat cs @ [x]"
proof (cases "cs = []")
  case True
  then show ?thesis
    by (simp add: metaClusterize_step_def last_elem_def runs_ok_def)
next
  case False
  then have ne: "last cs \<noteq> []" using assms by (auto simp: runs_ok_def)
  show ?thesis
  proof (cases "same_meta condition (last (last cs)) x")
    case True
    with False ne assms show ?thesis
      using runs_ok_extend [of "same_meta condition" cs x] concat_extend [of cs x]
      by (simp add: metaClusterize_step_def last_elem_def same_meta_def)
  next
    case False
    with \<open>cs \<noteq> []\<close> ne assms show ?thesis
      using runs_ok_new [of "same_meta condition" cs x]
      by (auto simp add: metaClusterize_step_def last_elem_def same_meta_def)
  qed
qed

lemma metaClusterize_foldl_inv:
  "runs_ok (same_meta condition) cs \<Longrightarrow>
   runs_ok (same_meta condition) (foldl (metaClusterize_step condition) cs xs) \<and>
   concat (foldl (metaClusterize_step condition) cs xs) = concat cs @ xs"
proof (induction xs arbitrary: cs)
  case Nil
  then show ?case by simp
next
  case (Cons x xs)
  from metaClusterize_step_inv [OF Cons.prems, of x] Cons.IH [of "metaClusterize_step condition cs x"]
  show ?case by simp
qed

lemma runs_ok_filter: "runs_ok R cs \<Longrightarrow> filter (\<lambda>ns. ns \<noteq> []) cs = cs"
  by (auto simp: runs_ok_def filter_id_conv)

lemma metaClusterize_nodes:
  "map nodes (metaClusterizeFlatTree flat condition) = foldl (metaClusterize_step condition) [] flat"
proof -
  have "runs_ok (same_meta condition) (foldl (metaClusterize_step condition) [] flat)"
    using metaClusterize_foldl_inv [OF runs_ok_Nil, of condition flat] by simp
  then show ?thesis
    by (simp add: metaClusterizeFlatTree_def runs_ok_filter comp_def)
qed

text \<open>
  Claim C7. For every flat node sequence and every predicate, the node lists of the
  meta-clusters, concatenated in order, are the input; every meta-cluster is not empty
  and any two adjacent nodes in it share a level and satisfy the predicate; and the
  last node of a meta-cluster and the first node of the next one (the adjacent input
  nodes that land in different clusters) never share a level and satisfy the predicate
  together.
\<close>

theorem metaClusterize_partition:
  "concat (map nodes (metaClusterizeFlatTree flat condition)) = flat \<and>
   (\<forall>c\<in>set (map nodes (metaClusterizeFlatTree flat condition)).
       c \<noteq> [] \<and> successively (\<lambda>a b. level a = level b \<and> condition a b) c) \<and>
   successively (\<lambda>c1 c2. \<not> (level (last c1) = level (hd c2) \<and> condition (last c1) (hd c2)))
     (map nodes (metaClusterizeFlatTree flat condition))"
  using metaClusterize_foldl_inv [OF runs_ok_Nil, of condition flat]
  unfolding metaClusterize_nodes runs_ok_def same_meta_def by simp

section \<open>Flat nodes end at the rounded start + duration\<close>

lemma well_formed_new:
  "well_formed (FlatTreeNode c (double_round (start c + duration c)) p l i)"
  by (simp add: well_formed_def)

lemma walk_well_formed:
  "cb = flatTree_cb \<Longrightarrow> list_all well_formed (fst s) \<Longrightarrow>
     list_all well_formed (fst (walk forest cb par lvl s))"
proof (induction forest cb par lvl s rule: walk.induct)
  case (1 cb par lvl s)
  then show ?case by simp
next
  case (2 child rest cb par lvl s)
  obtain res s1 where cb: "cb child par lvl s = (res, s1)" by (cases "cb child par lvl s")
  have s1: "list_all well_formed (fst s1)"
    using cb "2.prems" by (auto simp: flatTree_cb_def Let_def well_formed_new)
  define s2 where "s2 = (case children child of None \<Rightarrow> s1
      | Some cs \<Rightarrow> walk cs cb (Some res) (lvl + 1) s1)"
  have s2: "list_all well_formed (fst s2)"
  proof (cases "children child")
    case None
    then show ?thesis using s1 by (simp add: s2_def)
  next
    case (Some cs)
    then show ?thesis
      using "2.IH"(1) [OF cb [symmetric] refl Some "2.prems"(1) s1] by (simp add: s2_def)
  qed
  have "walk (child # rest) cb par lvl s = walk rest cb par lvl s2"
    using cb by (simp add: s2_def)
  then show ?case
    using "2.IH"(2) [OF cb [symmetric] refl s2_def "2.prems"(1) s2] by simp
qed

lemma set_sort_by: "set (sort_by cmp xs) = set xs"
  by (induction xs) (auto simp: sort_by_def set_insert_by)

lemma flatTree_well_formed: "n \<in> set (flatTree forest) \<Longrightarrow> well_formed n"
  using walk_well_formed [OF refl, of "([], 0)" forest None 0]
  by (simp add: flatTree_def set_sort_by list_all_iff)

text \<open>
  Every node of every meta-cluster made from a flattened forest has the rounded
  \<open>start + duration\<close> as its \<open>end\<close>: the hypothesis of the render clustering theorem holds
  along the pipeline \<open>flatTree\<close>, \<open>metaClusterizeFlatTree\<close>, \<open>clusterizeFlatTree\<close>.
\<close>

lemma metaClusterize_well_formed:
  assumes "mc \<in> set (metaClusterizeFlatTree (flatTree forest) condition)" and "n \<in> set (nodes mc)"
  shows "node_end n = double_round (start (source n) + duration (source n))"
proof -
  have "nodes mc \<in> set (map nodes (metaClusterizeFlatTree (flatTree forest) condition))"
    using assms(1) by simp
  then have "n \<in> set (concat (map nodes (metaClusterizeFlatTree (flatTree forest) condition)))"
    using assms(2) by (meson UnionI imageI set_concat [THEN equalityD2, THEN subsetD])
  then have "n \<in> set (flatTree forest)"
    using metaClusterize_foldl_inv [OF runs_ok_Nil, of condition "flatTree forest"]
    by (simp add: metaClusterize_nodes)
  then show ?thesis using flatTree_well_formed by (simp add: well_formed_def)
qed

section \<open>Render clustering\<close>

lemma clusterize_node_inv:
  assumes inv: "scan_inv A G st" and ok: "runs_ok (code_merges z sd mbs) G"
  shows "\<exists>G'. scan_inv A G' (clusterize_node z s e sd mbs st node) \<and>
               runs_ok (code_merges z sd mbs) G' \<and>
               concat G' = concat G @ filter (\<lambda>n. checkNodeTimeboundNesting n s e) [node]"
proof (cases "checkNodeTimeboundNesting node s e")
  case False
  with inv ok show ?thesis by (auto simp: clusterize_node_def)
next
  case vis: True
  show ?thesis
  proof (cases "G = []")
    case True
    have "scan_inv A [[node]] (clusterize_node z s e sd mbs st node)"
      using inv vis True by (simp add: clusterize_node_def scan_inv_def scan_new_def)
    moreover have "runs_ok (code_merges z sd mbs) [[node]]"
      by (simp add: runs_ok_def)
    ultimately show ?thesis using vis True by auto
  next
    case False
    then have lc: "lastCluster st = Some (last G)" and ln: "lastNode st = Some (last (last G))"
      and ix: "cl_index st = length (last G)" and ac: "acc st = A @ G"
      using inv by (simp_all add: scan_inv_def)
    show ?thesis
    proof (cases "code_merges z sd mbs (last (last G)) node")
      case True
      let ?G = "butlast G @ [last G @ [node]]"
      have step: "clusterize_node z s e sd mbs st node =
          st\<lparr>acc := butlast (acc st) @ [last G @ [node]], lastCluster := Some (last G @ [node]),
             cl_index := cl_index st + 1, lastNode := Some node\<rparr>"
        using vis lc ln ix True
        by (simp add: clusterize_node_def scan_put_def array_put_def code_merges_def Let_def)
      have "butlast (A @ G) = A @ butlast G" using False by (simp add: butlast_append)
      then have "scan_inv A ?G (clusterize_node z s e sd mbs st node)"
        by (simp add: step scan_inv_def ac ix)
      moreover have "runs_ok (code_merges z sd mbs) ?G"
        using runs_ok_extend [OF ok False True] .
      moreover have "concat ?G = concat G @ [node]"
        using concat_extend [OF False] .
      ultimately show ?thesis using vis by auto
    next
      case nomerge: False
      let ?G = "G @ [[node]]"
      have step: "clusterize_node z s e sd mbs st node =
          st\<lparr>acc := acc st @ [[node]], lastCluster := Some [node],
             cl_index := 1, lastNode := Some node\<rparr>"
        using vis lc ln nomerge
        by (auto simp add: clusterize_node_def scan_new_def code_merges_def Let_def)
      have "scan_inv A ?G (clusterize_node z s e sd mbs st node)"
        by (simp add: step scan_inv_def ac)
      moreover have "runs_ok (code_merges z sd mbs) ?G"
        using runs_ok_new [OF ok] nomerge by simp
      ultimately show ?thesis using vis by auto
    qed
  qed
qed

lemma clusterize_nodes_inv:
  "scan_inv A G st \<Longrightarrow> runs_ok (code_merges z sd mbs) G \<Longrightarrow>
   \<exists>G'. scan_inv A G' (foldl (clusterize_node z s e sd mbs) st ns) \<and>
        runs_ok (code_merges z sd mbs) G' \<and>
        concat G' = concat G @ filter (\<lambda>n. checkNodeTimeboundNesting n s e) ns"
proof (induction ns arbitrary: G st)
  case Nil
  then show ?case by auto
next
  case (Cons n ns)
  from clusterize_node_inv [OF Cons.prems, where s = s and e = e and node = n]
  obtain G1 where g1: "scan_inv A G1 (clusterize_node z s e sd mbs st n)"
      "runs_ok (code_merges z sd mbs) G1"
      "concat G1 = concat G @ filter (\<lambda>n. checkNodeTimeboundNesting n s e) [n]"
    by blast
  from Cons.IH [OF g1(1) g1(2)]
  obtain G2 where g2: "scan_inv A G2 (foldl (clusterize_node z s e sd mbs)
        (clusterize_node z s e sd mbs st n) ns)"
      "runs_ok (code_merges z sd mbs) G2"
      "concat G2 = concat G1 @ filter (\<lambda>n. checkNodeTimeboundNesting n s e) ns"
    by blast
  have "concat G2 = concat G @ filter (\<lambda>n. checkNodeTimeboundNesting n s e) (n # ns)"
    using g1(3) g2(3) by simp
  with g2 show ?case by auto
qed

lemma clusterize_meta_acc:
  "\<exists>G. acc (clusterize_meta z s e sd mbs st mc) = acc st @ G \<and>
       runs_ok (code_merges z sd mbs) G \<and>
       concat G = filter (\<lambda>n. checkNodeTimeboundNesting n s e) (nodes mc)"
proof -
  have "scan_inv (acc st) [] (st\<lparr>lastCluster := None, lastNode := None, cl_index := 0\<rparr>)"
    by (simp add: scan_inv_def)
  from clusterize_nodes_inv [OF this runs_ok_Nil, where z = z and sd = sd and mbs = mbs
      and s = s and e = e and ns = "nodes mc"]
  show ?thesis by (auto simp: clusterize_meta_def scan_inv_def)
qed

lemma clusterize_metas_acc:
  "\<exists>Gs. acc (foldl (clusterize_meta z s e sd mbs) st mcs) = acc st @ concat Gs \<and>
        list_all2 (\<lambda>mc G. runs_ok (code_merges z sd mbs) G \<and>
                     concat G = filter (\<lambda>n. checkNodeTimeboundNesting n s e) (nodes mc)) mcs Gs"
proof (induction mcs arbitrary: st)
  case Nil
  then show ?case by simp
next
  case (Cons mc mcs)
  obtain G where g: "acc (clusterize_meta z s e sd mbs st mc) = acc st @ G"
      "runs_ok (code_merges z sd mbs) G"
      "concat G = filter (\<lambda>n. checkNodeTimeboundNesting n s e) (nodes mc)"
    using clusterize_meta_acc by blast
  obtain Gs where gs: "acc (foldl (clusterize_meta z s e sd mbs) (clusterize_meta z s e sd mbs st mc) mcs)
        = acc (clusterize_meta z s e sd mbs st mc) @ concat Gs"
      "list_all2 (\<lambda>mc G. runs_ok (code_merges z sd mbs) G \<and>
                     concat G = filter (\<lambda>n. checkNodeTimeboundNesting n s e) (nodes mc)) mcs Gs"
    using Cons.IH by blast
  show ?case
    by (rule exI [of _ "G # Gs"]) (simp add: g gs)
qed

lemma make_cluster_nonempty: "ns \<noteq> [] \<Longrightarrow> make_cluster ns = Some (cluster_of ns)"
  by (cases ns)
     (simp_all add: make_cluster_def calcClusterDuration_def last_elem_def cluster_of_def)

lemma map_throwing_Some:
  "(\<And>x. x \<in> set xs \<Longrightarrow> f x = Some (g x)) \<Longrightarrow> map_throwing f xs = Some (map g xs)"
  by (induction xs) auto

lemma runs_ok_concat_nonempty:
  "list_all2 (\<lambda>mc G. runs_ok R G \<and> Q mc G) mcs Gs \<Longrightarrow> c \<in> set (concat Gs) \<Longrightarrow> c \<noteq> []"
  by (induction mcs Gs rule: list_all2_induct) (auto simp: runs_ok_def)

lemma clusterizeFlatTree_runs:
  "\<exists>Gs. clusterizeFlatTree mcs z s e sd mbs = Some (concat (map (map cluster_of) Gs)) \<and>
        list_all2 (\<lambda>mc G. runs_ok (code_merges z (or_default STICK_DISTANCE sd)
                                      (or_default MIN_BLOCK_SIZE mbs)) G \<and>
                     concat G = filter (\<lambda>n. checkNodeTimeboundNesting n (or_default 0 s)
                                               (or_default 0 e)) (nodes mc)) mcs Gs"
proof -
  let ?st = "\<lparr>acc = [], lastCluster = None, lastNode = None, cl_index = 0\<rparr>"
  let ?z = z and ?s = "or_default 0 s" and ?e = "or_default 0 e"
    and ?sd = "or_default STICK_DISTANCE sd" and ?mbs = "or_default MIN_BLOCK_SIZE mbs"
  obtain Gs where gs: "acc (foldl (clusterize_meta ?z ?s ?e ?sd ?mbs) ?st mcs) = acc ?st @ concat Gs"
     "list_all2 (\<lambda>mc G. runs_ok (code_merges ?z ?sd ?mbs) G \<and>
                     concat G = filter (\<lambda>n. checkNodeTimeboundNesting n ?s ?e) (nodes mc)) mcs Gs"
    using clusterize_metas_acc [where z = ?z and s = ?s and e = ?e and sd = ?sd and mbs = ?mbs
       and st = ?st and mcs = mcs] by blast
  have "map_throwing make_cluster (concat Gs) = Some (map cluster_of (concat Gs))"
    by (rule map_throwing_Some)
       (rule make_cluster_nonempty, rule runs_ok_concat_nonempty [OF gs(2)])
  then have "clusterizeFlatTree mcs z s e sd mbs = Some (concat (map (map cluster_of) Gs))"
    using gs(1) by (simp add: clusterizeFlatTree_def map_concat)
  with gs(2) show ?thesis by blast
qed

lemma clusterizeFlatTree_total: "\<exists>cs. clusterizeFlatTree mcs z s e sd mbs = Some cs"
  using clusterizeFlatTree_runs [of mcs z s e sd mbs] by blast

lemma double_round_back:
  "\<bar>double_round (s + double_round (E - s)) - E\<bar>
     \<le> (\<bar>E\<bar> + 2 * \<bar>E - s\<bar>) / 2 ^ 53 + 3 / 2 ^ 1075"
proof -
  define d where "d = double_round (E - s)"
  define c where "c = double_round (s + d)"
  define h :: real where "h = 1 / 2 ^ 1075"
  define D where "D = \<bar>E - s\<bar>"
  define A where "A = \<bar>E\<bar>"
  have h0: "0 \<le> h" by (simp add: h_def)
  have D0: "0 \<le> D" and A0: "0 \<le> A" by (simp_all add: D_def A_def)
  have ed: "\<bar>d - (E - s)\<bar> \<le> D / 2 ^ 53 + h"
    using double_round_error [of "E - s"] by (simp add: d_def D_def h_def)
  have ec: "\<bar>c - (s + d)\<bar> \<le> \<bar>s + d\<bar> / 2 ^ 53 + h"
    using double_round_error [of "s + d"] by (simp add: c_def h_def)
  have "\<bar>s + d\<bar> \<le> \<bar>E\<bar> + \<bar>d - (E - s)\<bar>" by linarith
  also have "\<dots> \<le> A + (D / 2 ^ 53 + h)" using ed by (simp add: A_def)
  finally have "\<bar>s + d\<bar> / 2 ^ 53 \<le> (A + (D / 2 ^ 53 + h)) / 2 ^ 53"
    by (simp add: divide_right_mono)
  also have "\<dots> \<le> (A + D) / 2 ^ 53 + h" using D0 A0 h0 by (simp add: field_simps)
  finally have sd: "\<bar>s + d\<bar> / 2 ^ 53 \<le> (A + D) / 2 ^ 53 + h" .
  have "\<bar>c - E\<bar> \<le> \<bar>c - (s + d)\<bar> + \<bar>d - (E - s)\<bar>" by linarith
  also have "\<dots> \<le> ((A + D) / 2 ^ 53 + h + h) + (D / 2 ^ 53 + h)"
    using ec ed sd by linarith
  also have "\<dots> = (A + 2 * D) / 2 ^ 53 + 3 * h" by (simp add: field_simps)
  finally show ?thesis by (simp add: c_def d_def A_def D_def h_def)
qed

lemma render_clusters_ok_runs:
  assumes wf: "\<forall>n\<in>set ns. node_end n = double_round (start (source n) + duration (source n))"
    and ok: "runs_ok (code_merges z sd mbs) G"
    and cat: "concat G = filter (\<lambda>n. checkNodeTimeboundNesting n s e) ns"
  shows "render_clusters_ok z s e sd mbs ns (map cluster_of G)"
proof -
  have sub: "\<And>c n. c \<in> set G \<Longrightarrow> n \<in> set c \<Longrightarrow> n \<in> set ns"
  proof -
    fix c n assume "c \<in> set G" "n \<in> set c"
    then have "n \<in> set (concat G)" by auto
    then show "n \<in> set ns" unfolding cat by simp
  qed
  have eq: "\<And>p n. p \<in> set ns \<Longrightarrow> merges z sd mbs p n = code_merges z sd mbs p n"
    using wf by (auto simp: merges_def code_merges_def)
  have ne: "\<And>c. c \<in> set G \<Longrightarrow> c \<noteq> []" using ok by (auto simp: runs_ok_def)
  have 1: "concat (map nodes (map cluster_of G)) = filter (\<lambda>n. checkNodeTimeboundNesting n s e) ns"
    using cat by (simp add: comp_def cluster_of_def)
  have 2: "nodes c \<noteq> [] \<and> successively (merges z sd mbs) (nodes c) \<and>
          cduration c =
            double_round (node_end (last (nodes c)) - start (source (hd (nodes c)))) \<and>
          cstart c = start (source (hd (nodes c))) \<and>
          cend c = double_round (cstart c + cduration c) \<and>
          \<bar>cend c - node_end (last (nodes c))\<bar>
            \<le> (\<bar>node_end (last (nodes c))\<bar> +
                2 * \<bar>node_end (last (nodes c)) - cstart c\<bar>) / 2 ^ 53 + 3 / 2 ^ 1075"
    if "c \<in> set (map cluster_of G)" for c
  proof -
    from that obtain g where g: "g \<in> set G" "c = cluster_of g" by auto
    have gne: "g \<noteq> []" using ne g(1) .
    then have "last g \<in> set g" by simp
    then have l: "node_end (last g) =
        double_round (start (source (last g)) + duration (source (last g)))"
      using wf sub [OF g(1)] by blast
    have "successively (code_merges z sd mbs) g" using ok g(1) by (auto simp: runs_ok_def)
    then have "successively (merges z sd mbs) g"
      by (rule successively_mono) (simp add: eq sub [OF g(1)])
    with gne l show ?thesis
      using double_round_back [of "start (source (hd g))" "node_end (last g)"]
      by (simp add: g(2) cluster_of_def)
  qed
  have "successively (\<lambda>c1 c2. \<not> code_merges z sd mbs (last c1) (hd c2)) G"
    using ok by (simp add: runs_ok_def)
  then have "successively (\<lambda>c1 c2. \<not> merges z sd mbs (last c1) (hd c2)) G"
  proof (rule successively_mono)
    fix c1 c2 assume c: "c1 \<in> set G" "c2 \<in> set G" "\<not> code_merges z sd mbs (last c1) (hd c2)"
    have "last c1 \<in> set c1" using ne [OF c(1)] by simp
    then have "last c1 \<in> set ns" using sub [OF c(1)] by blast
    then show "\<not> merges z sd mbs (last c1) (hd c2)" using c(3) by (simp add: eq)
  qed
  then have 3: "successively
        (\<lambda>c1 c2. \<not> merges z sd mbs (last (nodes c1)) (hd (nodes c2))) (map cluster_of G)"
    by (simp add: successively_map cluster_of_def)
  show ?thesis unfolding render_clusters_ok_def using 1 2 3 by blast
qed

text \<open>
  Claim C4, as amended. For meta-clusters whose nodes have the rounded
  \<open>start + duration\<close> as their \<open>end\<close> (as \<open>flatTree\<close> builds them),
  \<open>clusterizeFlatTree\<close> returns, for each meta-cluster in order, a run of render
  clusters such that: their node lists, concatenated, are the visible nodes of the
  meta-cluster; two consecutive visible nodes are in the same cluster exactly when the
  pixel gap from the end of the previous one to the start of the current one is below
  \<open>stickDistance\<close> and both pixel widths are below \<open>minBlockSize\<close> (they merge inside
  every cluster, and they do not across every cluster boundary), the gap and the
  widths as the code computes them; and every cluster has \<open>start\<close> the start of its
  first node, \<open>duration\<close> the rounded \<open>lastNode.end - firstNode.start\<close>, and \<open>end\<close> the
  rounded \<open>start + duration\<close>, which is the end of the last node only up to rounding:
  the two differ by at most \<open>(|lastNode.end| + 2 |lastNode.end - start|) / 2 ^ 53\<close> and
  an underflow term.
\<close>

theorem clusterizeFlatTree_merge_rule:
  assumes wf: "\<forall>mc\<in>set mcs. \<forall>n\<in>set (nodes mc).
                 node_end n = double_round (start (source n) + duration (source n))"
  shows "\<exists>css. clusterizeFlatTree mcs z s e sd mbs = Some (concat css) \<and>
           list_all2 (\<lambda>mc cs. render_clusters_ok z (or_default 0 s) (or_default 0 e)
                        (or_default STICK_DISTANCE sd) (or_default MIN_BLOCK_SIZE mbs)
                        (nodes mc) cs) mcs css"
proof -
  let ?s = "or_default 0 s" and ?e = "or_default 0 e"
    and ?sd = "or_default STICK_DISTANCE sd" and ?mbs = "or_default MIN_BLOCK_SIZE mbs"
  obtain Gs where gs: "clusterizeFlatTree mcs z s e sd mbs = Some (concat (map (map cluster_of) Gs))"
     "list_all2 (\<lambda>mc G. runs_ok (code_merges z ?sd ?mbs) G \<and>
                     concat G = filter (\<lambda>n. checkNodeTimeboundNesting n ?s ?e) (nodes mc)) mcs Gs"
    using clusterizeFlatTree_runs [of mcs z s e sd mbs] by blast
  have "list_all2 (\<lambda>mc G. render_clusters_ok z ?s ?e ?sd ?mbs (nodes mc) (map cluster_of G)) mcs Gs"
    using gs(2) wf
  proof (induction mcs Gs rule: list_all2_induct)
    case Nil
    then show ?case by simp
  next
    case (Cons mc mcs G Gs)
    then show ?case using render_clusters_ok_runs [of "nodes mc" z ?sd ?mbs G ?s ?e] by simp
  qed
  then have "list_all2 (render_clusters_ok z ?s ?e ?sd ?mbs \<circ> nodes) mcs (map (map cluster_of) Gs)"
    by (simp add: list_all2_map2 comp_def)
  with gs(1) show ?thesis unfolding comp_def by blast
qed

lemma flat_fields:
  "level flat_r = 0" "level flat_y = 1" "level flat_x = 1"
  "start (source flat_y) = 1" "duration (source flat_y) = 2" "node_end flat_y = 3"
  "start (source flat_x) = 5" "duration (source flat_x) = 1" "node_end flat_x = 6"
  "color (source flat_y) = None" "color (source flat_x) = None"
  "ntype (source flat_y) = None" "ntype (source flat_x) = None"
  by (simp_all add: flat_r_def flat_y_def flat_x_def leaf_x_def leaf_y_def)

lemma metaClusterize_flat:
  "map nodes (metaClusterizeFlatTree [flat_r, flat_y, flat_x] defaultClusterizeCondition) =
     [[flat_r], [flat_y, flat_x]]"
  by (simp add: metaClusterizeFlatTree_def metaClusterize_step_def last_elem_def
        defaultClusterizeCondition_def flat_fields)

text \<open>
  The theorem of C7 at the flattened example tree and the default predicate.
\<close>

theorem metaClusterize_partition_witness:
  "map nodes (metaClusterizeFlatTree [flat_r, flat_y, flat_x] defaultClusterizeCondition) =
     [[flat_r], [flat_y, flat_x]] \<and>
   concat [[flat_r], [flat_y, flat_x]] = [flat_r, flat_y, flat_x] \<and>
   level flat_y = level flat_x \<and> defaultClusterizeCondition flat_y flat_x \<and>
   level flat_r \<noteq> level flat_y"
proof -
  note t = metaClusterize_partition [of "[flat_r, flat_y, flat_x]" defaultClusterizeCondition]
  from t have "successively (\<lambda>a b. level a = level b \<and> defaultClusterizeCondition a b)
      [flat_y, flat_x]"
    unfolding metaClusterize_flat by simp
  then have a: "level flat_y = level flat_x \<and> defaultClusterizeCondition flat_y flat_x"
    by simp
  from t have "successively (\<lambda>c1 c2. \<not> (level (last c1) = level (hd c2) \<and>
      defaultClusterizeCondition (last c1) (hd c2))) [[flat_r], [flat_y, flat_x]]"
    unfolding metaClusterize_flat by blast
  then have b: "level flat_r \<noteq> level flat_y"
    by (simp add: defaultClusterizeCondition_def flat_fields)
  show ?thesis using a b metaClusterize_flat by simp
qed

lemma double_round_eighth: "double_round (1 / 8) = 1 / 8"
  using double_round_dyadic [of 1 3] by simp

lemma double_round_sixteenth: "double_round (1 / 16) = 1 / 16"
  using double_round_dyadic [of 1 4] by simp

lemma clusterize_meta_yx:
  "clusterizeFlatTree [meta_yx] (1/16) (Some 0) (Some 10) None None = Some [cluster_yx]"
  by (simp add: double_round_eighth double_round_sixteenth clusterizeFlatTree_def clusterize_meta_def clusterize_node_def
        checkNodeTimeboundNesting_def scan_new_def scan_put_def array_put_def or_default_def
        make_cluster_def calcClusterDuration_def last_elem_def
        meta_yx_def cluster_yx_def flat_fields Let_def
        MIN_BLOCK_SIZE_def STICK_DISTANCE_def)

text \<open>
  The theorem of C4 at a meta-cluster of two nodes that merge at zoom 1/16.
\<close>

theorem clusterizeFlatTree_merge_rule_witness:
  "node_end flat_y = double_round (start (source flat_y) + duration (source flat_y)) \<and>
   node_end flat_x = double_round (start (source flat_x) + duration (source flat_x)) \<and>
   clusterizeFlatTree [meta_yx] (1/16) (Some 0) (Some 10) None None = Some [cluster_yx] \<and>
   merges (1/16) STICK_DISTANCE MIN_BLOCK_SIZE flat_y flat_x \<and>
   cduration cluster_yx = double_round (node_end flat_x - start (source flat_y)) \<and>
   cstart cluster_yx = start (source flat_y) \<and>
   cend cluster_yx = double_round (cstart cluster_yx + cduration cluster_yx)"
proof -
  have wf: "\<forall>mc\<in>set [meta_yx]. \<forall>n\<in>set (nodes mc).
      node_end n = double_round (start (source n) + duration (source n))"
    by (simp add: meta_yx_def flat_fields)
  have n: "nodes cluster_yx = [flat_y, flat_x]" "nodes meta_yx = [flat_y, flat_x]"
    by (simp_all add: cluster_yx_def meta_yx_def)
  from clusterizeFlatTree_merge_rule [OF wf, of "1/16" "Some 0" "Some 10" None None]
  have "render_clusters_ok (1/16) 0 10 STICK_DISTANCE MIN_BLOCK_SIZE (nodes meta_yx) [cluster_yx]"
    unfolding clusterize_meta_yx by (auto simp: list_all2_Cons1 or_default_def)
  then have "merges (1/16) STICK_DISTANCE MIN_BLOCK_SIZE flat_y flat_x \<and>
      cduration cluster_yx = double_round (node_end flat_x - start (source flat_y)) \<and>
      cstart cluster_yx = start (source flat_y) \<and>
      cend cluster_yx = double_round (cstart cluster_yx + cduration cluster_yx)"
    by (simp add: render_clusters_ok_def n)
  then show ?thesis using clusterize_meta_yx by (simp add: flat_fields)
qed

text \<open>
  The roundings of the example with the doubles \<open>0.1\<close>, \<open>0.4\<close> and \<open>0.05\<close>.
\<close>

lemma round_tenth:
  "double_round (3602879701896397 / 36028797018963968) = 3602879701896397 / 36028797018963968"
  using double_round_dyadic [of 3602879701896397 55] by simp

lemma round_end_q:
  "double_round (32425917317067573 / 72057594037927936) = 8106479329266893 / 18014398509481984"
  using double_round_at [of "- 2" "32425917317067573 / 72057594037927936"]
  by (simp add: pow2_eval round_even_def)

lemma round_duration_pq:
  "double_round (12610078956637389 / 36028797018963968) = 3152519739159347 / 9007199254740992"
  using double_round_at [of "- 2" "12610078956637389 / 36028797018963968"]
  by (simp add: pow2_eval round_even_def)

lemma round_end_pq:
  "double_round (16212958658533785 / 36028797018963968) = 2026619832316723 / 4503599627370496"
  using double_round_at [of "- 2" "16212958658533785 / 36028797018963968"]
  by (simp add: pow2_eval round_even_def)

lemma round_gap_pq:
  "double_round (10808639105689191 / 36028797018963968) = 1351079888211149 / 4503599627370496"
  using double_round_at [of "- 2" "10808639105689191 / 36028797018963968"]
  by (simp add: pow2_eval round_even_def)

lemma round_gap_px:
  "double_round (1351079888211149 / 9007199254740992) = 1351079888211149 / 9007199254740992"
  using double_round_dyadic [of 1351079888211149 53] by simp

lemma round_width_q:
  "double_round (3602879701896397 / 144115188075855872) = 3602879701896397 / 144115188075855872"
  using double_round_dyadic [of 3602879701896397 57] by simp

lemma pq_fields:
  "start (source node_p) = 3602879701896397 / 36028797018963968" "duration (source node_p) = 0"
  "node_end node_p = 3602879701896397 / 36028797018963968"
  "start (source node_q) = 3602879701896397 / 9007199254740992"
  "duration (source node_q) = 3602879701896397 / 72057594037927936"
  "node_end node_q = 8106479329266893 / 18014398509481984"
  "ntype (source node_p) = None" "color (source node_p) = None" "level node_p = 0"
  by (simp_all add: node_p_def node_q_def)

lemma clusterize_meta_pq:
  "clusterizeFlatTree [meta_pq] (1/2) (Some 0) (Some 1) None None = Some [cluster_pq]"
  by (simp add: clusterizeFlatTree_def clusterize_meta_def clusterize_node_def
        checkNodeTimeboundNesting_def scan_new_def scan_put_def array_put_def or_default_def
        make_cluster_def calcClusterDuration_def last_elem_def
        meta_pq_def cluster_pq_def pq_fields Let_def
        MIN_BLOCK_SIZE_def STICK_DISTANCE_def
        round_tenth round_end_q round_duration_pq round_end_pq round_gap_pq round_gap_px
        round_width_q)

text \<open>
  Claim C4 as stated fails in its last part: for the nodes \<open>(start 0.1, duration 0)\<close>
  and \<open>(start 0.4, duration 0.05)\<close>, built as \<open>flatTree\<close> builds them and merged at
  zoom 1/2, the cluster has the duration \<open>0.35\<close> and its \<open>end\<close>, the rounded
  \<open>0.1 + 0.35\<close>, is \<open>0.44999999999999996\<close>, below the end \<open>0.45\<close> of its last node.
\<close>

theorem cluster_end_counterexample:
  "node_end node_p = double_round (start (source node_p) + duration (source node_p)) \<and>
   node_end node_q = double_round (start (source node_q) + duration (source node_q)) \<and>
   clusterizeFlatTree [meta_pq] (1/2) (Some 0) (Some 1) None None = Some [cluster_pq] \<and>
   last (nodes cluster_pq) = node_q \<and>
   cend cluster_pq = 2026619832316723 / 4503599627370496 \<and>
   node_end node_q = 8106479329266893 / 18014398509481984 \<and>
   cend cluster_pq < node_end node_q"
  using clusterize_meta_pq
  by (simp add: pq_fields round_tenth round_end_q) (simp add: cluster_pq_def)

section \<open>Re-clustering\<close>

lemma reclusterize_foldl:
  "\<exists>parts. foldl (reclusterize_step z s e sd mbs) (Some a) cs = Some (a @ concat parts) \<and>
           list_all2 (reclustered_as z s e sd mbs) cs parts"
proof (induction cs arbitrary: a)
  case Nil
  then show ?case by simp
next
  case (Cons c cs)
  obtain part where p: "reclusterize_step z s e sd mbs (Some a) c = Some (a @ part)"
      "reclustered_as z s e sd mbs c part"
  proof (cases "checkClusterTimeboundNesting c s e \<and>
                \<not> double_round (cduration c * z) \<le> MIN_CLUSTER_SIZE")
    case True
    obtain part where "clusterizeFlatTree [c] z (Some s) (Some e) sd mbs = Some part"
      using clusterizeFlatTree_total by blast
    with True that [of part] show ?thesis
      by (simp add: reclusterize_step_def reclustered_as_def)
  next
    case False
    with that [of "if checkClusterTimeboundNesting c s e then [c] else []"] show ?thesis
      by (auto simp add: reclusterize_step_def reclustered_as_def)
  qed
  obtain parts where ps:
      "foldl (reclusterize_step z s e sd mbs) (Some (a @ part)) cs = Some ((a @ part) @ concat parts)"
      "list_all2 (reclustered_as z s e sd mbs) cs parts"
    using Cons.IH by blast
  show ?case
    by (rule exI [of _ "part # parts"]) (simp add: p ps)
qed

lemma reclusterize_total: "\<exists>r. reclusterizeClusteredFlatTree cs z s e sd mbs = Some r"
  using reclusterize_foldl [of z s e sd mbs "[]" cs]
  by (auto simp: reclusterizeClusteredFlatTree_def)

text \<open>
  Claim C1, as amended. \<open>reclusterizeClusteredFlatTree\<close> handles each cluster on its
  own, in order: a cluster that does not overlap the visible range is dropped; an
  overlapping cluster is kept as it is exactly when its on-screen width
  \<open>duration * zoom\<close> is at most \<open>MIN_CLUSTER_SIZE\<close>, the constant 2.25 (whatever
  \<open>stickDistance\<close> and \<open>minBlockSize\<close> are passed); a wider one is replaced by the
  result of \<open>clusterizeFlatTree\<close> over its own nodes.
\<close>

theorem reclusterize_rule:
  "MIN_CLUSTER_SIZE = 2.25 \<and>
   (\<exists>parts. reclusterizeClusteredFlatTree cs z s e sd mbs = Some (concat parts) \<and>
            list_all2 (reclustered_as z s e sd mbs) cs parts)"
  using reclusterize_foldl [of z s e sd mbs "[]" cs]
  by (simp add: reclusterizeClusteredFlatTree_def MIN_CLUSTER_SIZE_def MIN_BLOCK_SIZE_def
        STICK_DISTANCE_def)

lemma clusterize_wide:
  "clusterizeFlatTree [wide_cluster] 10 (Some 0) (Some 2) None None = Some [cluster_a, cluster_b]"
  by (simp add: clusterizeFlatTree_def clusterize_meta_def clusterize_node_def
        checkNodeTimeboundNesting_def scan_new_def scan_put_def array_put_def or_default_def
        make_cluster_def calcClusterDuration_def last_elem_def
        wide_cluster_def node_a_def node_b_def cluster_a_def cluster_b_def
        MIN_BLOCK_SIZE_def STICK_DISTANCE_def)

text \<open>
  Claim C1 as stated fails: a cluster that overlaps the visible range and whose
  on-screen width 20 exceeds \<open>2 * minBlockSize + stickDistance\<close> is not kept as it is,
  it is split in two.
\<close>

theorem reclusterize_wide_counterexample:
  "checkClusterTimeboundNesting wide_cluster 0 2 \<and>
   cduration wide_cluster * 10 > 2 * MIN_BLOCK_SIZE + STICK_DISTANCE \<and>
   reclusterizeClusteredFlatTree [wide_cluster] 10 0 2 None None = Some [cluster_a, cluster_b] \<and>
   [cluster_a, cluster_b] \<noteq> [wide_cluster]"
  using clusterize_wide
  by (simp add: reclusterizeClusteredFlatTree_def reclusterize_step_def
        checkClusterTimeboundNesting_def MIN_CLUSTER_SIZE_def MIN_BLOCK_SIZE_def STICK_DISTANCE_def)
     (simp add: wide_cluster_def)

text \<open>
  The theorem of C1 at the three cases: re-clustered, kept, dropped.
\<close>

theorem reclusterize_rule_witness:
  "reclusterizeClusteredFlatTree [wide_cluster] 10 0 2 None None = Some [cluster_a, cluster_b] \<and>
   reclusterizeClusteredFlatTree [wide_cluster] 1 0 2 None None = Some [wide_cluster] \<and>
   reclusterizeClusteredFlatTree [wide_cluster] 1 5 7 None None = Some []"
proof -
  have w: "checkClusterTimeboundNesting wide_cluster 0 2" "\<not> checkClusterTimeboundNesting wide_cluster 5 7"
     "cduration wide_cluster = 2"
    by (simp_all add: checkClusterTimeboundNesting_def wide_cluster_def)
  have 1: "reclusterizeClusteredFlatTree [wide_cluster] 10 0 2 None None = Some [cluster_a, cluster_b]"
    using reclusterize_rule [of "[wide_cluster]" 10 0 2 None None] clusterize_wide w
    by (auto simp: reclustered_as_def list_all2_Cons1)
  have 2: "reclusterizeClusteredFlatTree [wide_cluster] 1 0 2 None None = Some [wide_cluster]"
    using reclusterize_rule [of "[wide_cluster]" 1 0 2 None None] w
    by (auto simp: reclustered_as_def list_all2_Cons1)
  have 3: "reclusterizeClusteredFlatTree [wide_cluster] 1 5 7 None None = Some []"
    using reclusterize_rule [of "[wide_cluster]" 1 5 7 None None] w
    by (auto simp: reclustered_as_def list_all2_Cons1)
  show ?thesis using 1 2 3 by simp
qed

section \<open>The viewport\<close>

text \<open>
  Claim C2 as stated fails: with \<open>positionX = 1\<close> and \<open>zoom = 2\<close>, the time 3 of the
  extent goes to pixel 4 and back to 2. No operation rounds here.
\<close>

theorem roundtrip_counterexample:
  "zoom engine_A > 0 \<and> vmin engine_A \<le> 3 \<and> 3 \<le> vmax engine_A \<and>
   pixelToTime engine_A (timeToPosition engine_A 3) = 2"
  by (simp add: engine_A_def pixelToTime_def timeToPosition_def)

text \<open>
  \<open>timeToPosition\<close> is not strictly increasing either: at the zoom
  \<open>0.5000000000000001\<close> the two neighbouring doubles \<open>1.9999999999999996\<close> and
  \<open>1.9999999999999998\<close> both go to the pixel 1, both products rounding to 1.
\<close>

lemma timeToPosition_not_strict:
  "zoom engine_half > 0 \<and>
   (4503599627370495 / 2251799813685248 :: real) < 9007199254740991 / 4503599627370496 \<and>
   timeToPosition engine_half (4503599627370495 / 2251799813685248) = 1 \<and>
   timeToPosition engine_half (9007199254740991 / 4503599627370496) = 1"
proof -
  have a: "double_round
      (20282409603651670423947251286015 / 20282409603651670423947251286016) = 1"
    using double_round_at [of "- 1"
        "20282409603651670423947251286015 / 20282409603651670423947251286016"]
    by (simp add: pow2_eval round_even_def)
  have b: "double_round
      (40564819207303345351494129942527 / 40564819207303340847894502572032) = 1"
    using double_round_at [of 0
        "40564819207303345351494129942527 / 40564819207303340847894502572032"]
    by (simp add: pow2_eval round_even_def)
  show ?thesis by (simp add: timeToPosition_def engine_half_def a b)
qed

lemma timeToPosition_mono:
  assumes "0 < zoom engine" and "t1 \<le> t2"
  shows "timeToPosition engine t1 \<le> timeToPosition engine t2"
proof -
  have "t1 * zoom engine \<le> t2 * zoom engine" using assms by simp
  then have "double_round (t1 * zoom engine) \<le> double_round (t2 * zoom engine)"
    by (rule double_round_mono)
  then have "double_round (t1 * zoom engine) - double_round (positionX engine * zoom engine)
      \<le> double_round (t2 * zoom engine) - double_round (positionX engine * zoom engine)"
    by simp
  then show ?thesis unfolding timeToPosition_def by (rule double_round_mono)
qed

lemma timeToPosition_near:
  assumes z: "0 < zoom engine"
  shows "\<bar>timeToPosition engine t - (t - positionX engine) * zoom engine\<bar>
           \<le> 3 * ((\<bar>t\<bar> + \<bar>positionX engine\<bar>) * zoom engine) / 2 ^ 53 + 4 / 2 ^ 1075"
proof -
  define x where "x = t * zoom engine"
  define y where "y = positionX engine * zoom engine"
  define T where "T = \<bar>t\<bar> * zoom engine"
  define P where "P = \<bar>positionX engine\<bar> * zoom engine"
  define a where "a = double_round x"
  define b where "b = double_round y"
  define c where "c = double_round (a - b)"
  define h :: real where "h = 1 / 2 ^ 1075"
  have T0: "0 \<le> T" and P0: "0 \<le> P" using z by (simp_all add: T_def P_def)
  have h0: "0 \<le> h" by (simp add: h_def)
  have xt: "\<bar>x\<bar> = T" and yp: "\<bar>y\<bar> = P"
    using z by (simp_all add: x_def y_def T_def P_def abs_mult)
  have ea: "\<bar>a - x\<bar> \<le> T / 2 ^ 53 + h"
    using double_round_error [of x] by (simp add: a_def xt h_def)
  have eb: "\<bar>b - y\<bar> \<le> P / 2 ^ 53 + h"
    using double_round_error [of y] by (simp add: b_def yp h_def)
  have ec: "\<bar>c - (a - b)\<bar> \<le> \<bar>a - b\<bar> / 2 ^ 53 + h"
    using double_round_error [of "a - b"] by (simp add: c_def h_def)
  have "\<bar>a - b\<bar> \<le> \<bar>x\<bar> + \<bar>y\<bar> + \<bar>a - x\<bar> + \<bar>b - y\<bar>" by linarith
  also have "\<dots> \<le> T + P + (T / 2 ^ 53 + h) + (P / 2 ^ 53 + h)"
    using ea eb xt yp by linarith
  finally have "\<bar>a - b\<bar> / 2 ^ 53 \<le> (T + P + (T / 2 ^ 53 + h) + (P / 2 ^ 53 + h)) / 2 ^ 53"
    by (simp add: divide_right_mono)
  also have "\<dots> \<le> 2 * (T + P) / 2 ^ 53 + h" using T0 P0 h0 by (simp add: field_simps)
  finally have ab: "\<bar>a - b\<bar> / 2 ^ 53 \<le> 2 * (T + P) / 2 ^ 53 + h" .
  have "\<bar>c - (x - y)\<bar> \<le> \<bar>c - (a - b)\<bar> + \<bar>a - x\<bar> + \<bar>b - y\<bar>" by linarith
  also have "\<dots> \<le> (2 * (T + P) / 2 ^ 53 + h + h) + (T / 2 ^ 53 + h) + (P / 2 ^ 53 + h)"
    using ea eb ec ab by linarith
  also have "\<dots> = 3 * (T + P) / 2 ^ 53 + 4 * h" by (simp add: field_simps)
  finally have "\<bar>c - (x - y)\<bar> \<le> 3 * (T + P) / 2 ^ 53 + 4 * h" .
  moreover have "x - y = (t - positionX engine) * zoom engine"
    by (simp add: x_def y_def algebra_simps)
  moreover have "T + P = (\<bar>t\<bar> + \<bar>positionX engine\<bar>) * zoom engine"
    by (simp add: T_def P_def algebra_simps)
  moreover have "c = timeToPosition engine t"
    by (simp add: timeToPosition_def c_def a_def b_def x_def y_def)
  ultimately show ?thesis by (simp add: h_def)
qed

lemma roundtrip_near:
  assumes z: "0 < zoom engine"
  shows "\<bar>pixelToTime engine (timeToPosition engine t) - (t - positionX engine)\<bar>
           \<le> 5 * (\<bar>t\<bar> + \<bar>positionX engine\<bar>) / 2 ^ 53 + (5 / zoom engine + 1) / 2 ^ 1075"
proof -
  define S where "S = \<bar>t\<bar> + \<bar>positionX engine\<bar>"
  define c where "c = timeToPosition engine t"
  define d where "d = t - positionX engine"
  define h :: real where "h = 1 / 2 ^ 1075"
  define k where "k = h / zoom engine"
  have S0: "0 \<le> S" by (simp add: S_def)
  have k0: "0 \<le> k" using z by (simp add: k_def h_def)
  have dS: "\<bar>d\<bar> \<le> S" by (simp add: d_def S_def)
  have "\<bar>c - d * zoom engine\<bar> \<le> 3 * (S * zoom engine) / 2 ^ 53 + 4 * h"
    using timeToPosition_near [OF z, of t] by (simp add: c_def d_def S_def h_def)
  then have "\<bar>c - d * zoom engine\<bar> / zoom engine
      \<le> (3 * (S * zoom engine) / 2 ^ 53 + 4 * h) / zoom engine"
    using z by (simp add: divide_right_mono)
  moreover have "\<bar>c - d * zoom engine\<bar> / zoom engine = \<bar>c / zoom engine - d\<bar>"
  proof -
    have "c / zoom engine - d = (c - d * zoom engine) / zoom engine"
      using z by (simp add: field_simps)
    then show ?thesis using z by (simp add: abs_divide)
  qed
  moreover have "(3 * (S * zoom engine) / 2 ^ 53 + 4 * h) / zoom engine = 3 * S / 2 ^ 53 + 4 * k"
    using z by (simp add: k_def field_simps)
  ultimately have cd: "\<bar>c / zoom engine - d\<bar> \<le> 3 * S / 2 ^ 53 + 4 * k" by simp
  have er: "\<bar>double_round (c / zoom engine) - c / zoom engine\<bar>
      \<le> \<bar>c / zoom engine\<bar> / 2 ^ 53 + h"
    using double_round_error [of "c / zoom engine"] by (simp add: h_def)
  have "\<bar>c / zoom engine\<bar> \<le> S + 3 * S / 2 ^ 53 + 4 * k" using cd dS by linarith
  then have "\<bar>c / zoom engine\<bar> / 2 ^ 53 \<le> (S + 3 * S / 2 ^ 53 + 4 * k) / 2 ^ 53"
    by (simp add: divide_right_mono)
  also have "\<dots> \<le> 2 * S / 2 ^ 53 + k" using S0 k0 by simp
  finally have "\<bar>c / zoom engine\<bar> / 2 ^ 53 \<le> 2 * S / 2 ^ 53 + k" .
  then have "\<bar>double_round (c / zoom engine) - c / zoom engine\<bar> \<le> 2 * S / 2 ^ 53 + k + h"
    using er by linarith
  moreover have "\<bar>double_round (c / zoom engine) - d\<bar>
      \<le> \<bar>double_round (c / zoom engine) - c / zoom engine\<bar> + \<bar>c / zoom engine - d\<bar>"
    by linarith
  ultimately have "\<bar>double_round (c / zoom engine) - d\<bar>
      \<le> (2 * S / 2 ^ 53 + k + h) + (3 * S / 2 ^ 53 + 4 * k)"
    using cd by linarith
  also have "\<dots> = 5 * S / 2 ^ 53 + (5 * k + h)" by (simp add: field_simps)
  also have "5 * k + h = (5 / zoom engine + 1) / 2 ^ 1075"
    using z by (simp add: k_def h_def field_simps)
  finally show ?thesis by (simp add: pixelToTime_def c_def d_def S_def)
qed

text \<open>
  Claim C2, as amended. For \<open>zoom > 0\<close>: \<open>timeToPosition(t)\<close> is
  \<open>(t - positionX) * zoom\<close> up to three rounding steps, each a relative error of at
  most \<open>2 ^ -53\<close> of \<open>(|t| + |positionX|) * zoom\<close>, and an underflow term;
  \<open>pixelToTime\<close> of it is \<open>t - positionX\<close> (\<open>pixelToTime\<close> converts a width, not a
  coordinate) up to five such errors of \<open>|t| + |positionX|\<close> and an underflow term;
  and \<open>timeToPosition\<close> never decreases when \<open>t\<close> grows.
\<close>

theorem timeToPosition_pixelToTime:
  "zoom engine > 0 \<Longrightarrow>
     \<bar>timeToPosition engine t - (t - positionX engine) * zoom engine\<bar>
       \<le> 3 * ((\<bar>t\<bar> + \<bar>positionX engine\<bar>) * zoom engine) / 2 ^ 53 + 4 / 2 ^ 1075 \<and>
     \<bar>pixelToTime engine (timeToPosition engine t) - (t - positionX engine)\<bar>
       \<le> 5 * (\<bar>t\<bar> + \<bar>positionX engine\<bar>) / 2 ^ 53 + (5 / zoom engine + 1) / 2 ^ 1075 \<and>
     (t1 \<le> t2 \<longrightarrow> timeToPosition engine t1 \<le> timeToPosition engine t2)"
  using timeToPosition_near [of engine t] roundtrip_near [of engine t]
    timeToPosition_mono [of engine t1 t2]
  by blast

text \<open>
  The theorem of C2 at the state of the counterexample, where no operation rounds.
\<close>

theorem timeToPosition_pixelToTime_witness:
  "zoom engine_A > 0 \<and> timeToPosition engine_A 3 = 4 \<and>
   pixelToTime engine_A (timeToPosition engine_A 3) = 2 \<and>
   \<bar>pixelToTime engine_A (timeToPosition engine_A 3) - (3 - positionX engine_A)\<bar>
     \<le> 5 * (\<bar>3\<bar> + \<bar>positionX engine_A\<bar>) / 2 ^ 53 + (5 / zoom engine_A + 1) / 2 ^ 1075 \<and>
   timeToPosition engine_A 3 \<le> timeToPosition engine_A 4"
proof -
  have v: "zoom engine_A = 2" "positionX engine_A = 1" by (simp_all add: engine_A_def)
  have z: "zoom engine_A > 0" by (simp add: v)
  note t = timeToPosition_pixelToTime [OF z, of 3 3 4]
  have r1: "timeToPosition engine_A 3 = 4" by (simp add: timeToPosition_def v)
  have r2: "pixelToTime engine_A (timeToPosition engine_A 3) = 2"
    by (simp add: r1 pixelToTime_def v)
  from t have r3: "\<bar>pixelToTime engine_A (timeToPosition engine_A 3) - (3 - positionX engine_A)\<bar>
     \<le> 5 * (\<bar>3\<bar> + \<bar>positionX engine_A\<bar>) / 2 ^ 53 + (5 / zoom engine_A + 1) / 2 ^ 1075"
    by blast
  from t have r4: "timeToPosition engine_A 3 \<le> timeToPosition engine_A 4" by simp
  show ?thesis using z r1 r2 r3 r4 by blast
qed

text \<open>
  Claim C8. \<open>setZoom(z)\<close> returns \<open>false\<close> and leaves the engine as it is exactly when
  the accuracy has reached \<open>MAX_ACCURACY\<close> and \<open>z\<close> is greater than the current zoom; it
  returns \<open>true\<close> and stores \<open>z\<close> (in the engine and its children) exactly when the
  accuracy is under \<open>MAX_ACCURACY\<close> or \<open>z\<close> is at most the current zoom.
\<close>

theorem setZoom_gate:
  "(setZoom engine z = (False, engine)) = (MAX_ACCURACY \<le> accuracy engine \<and> zoom engine < z) \<and>
   (setZoom engine z =
      (True, engine\<lparr>zoom := z,
                    child_engines := map (\<lambda>c. c\<lparr>zoom := z\<rparr>) (child_engines engine)\<rparr>))
     = (accuracy engine < MAX_ACCURACY \<or> z \<le> zoom engine)"
  by (auto simp add: setZoom_def)

text \<open>
  The theorem of C8 at a rejected zoom-in, an accepted zoom-out at the floor, and an
  accepted zoom-in under the floor.
\<close>

theorem setZoom_gate_witness:
  "setZoom engine_fit 11 = (False, engine_fit) \<and>
   setZoom engine_fit 5 = (True, engine_fit\<lparr>zoom := 5\<rparr>) \<and>
   setZoom engine_A 11 = (True, engine_A\<lparr>zoom := 11\<rparr>)"
  using setZoom_gate [of engine_fit 11] setZoom_gate [of engine_fit 5] setZoom_gate [of engine_A 11]
  by (simp add: engine_fit_def engine_A_def MAX_ACCURACY_def)

text \<open>
  Claim C9 as stated fails: at the fit of the whole extent (\<open>zoom = initialZoom = 10\<close>),
  \<open>setZoom(initialZoom / 2)\<close> leaves the zoom at 5.
\<close>

theorem setZoom_half_counterexample:
  "zoom engine_fit = getInitialZoom engine_fit \<and> getInitialZoom engine_fit = 10 \<and>
   setZoom engine_fit (getInitialZoom engine_fit / 2) = (True, engine_fit\<lparr>zoom := 5\<rparr>) \<and>
   zoom (snd (setZoom engine_fit (getInitialZoom engine_fit / 2))) = 5"
  by (simp add: setZoom_def getInitialZoom_def engine_fit_def)

text \<open>
  Claim C9, as amended. From every state whose zoom is at least \<open>initialZoom / 2\<close>
  (the fit included), \<open>setZoom(initialZoom / 2)\<close> is accepted and the zoom becomes the
  requested \<open>initialZoom / 2\<close>; \<open>initialZoom\<close> itself does not change.
\<close>

theorem setZoom_half_applied:
  "getInitialZoom engine / 2 \<le> zoom engine \<Longrightarrow>
     fst (setZoom engine (getInitialZoom engine / 2)) \<and>
     zoom (snd (setZoom engine (getInitialZoom engine / 2))) = getInitialZoom engine / 2 \<and>
     getInitialZoom (snd (setZoom engine (getInitialZoom engine / 2))) = getInitialZoom engine"
  by (simp add: setZoom_def getInitialZoom_def)

text \<open>
  The theorem of C9 at the fit of the extent 0..10 on 100 pixels.
\<close>

theorem setZoom_half_applied_witness:
  "getInitialZoom engine_fit / 2 \<le> zoom engine_fit \<and>
   fst (setZoom engine_fit (getInitialZoom engine_fit / 2)) \<and>
   zoom (snd (setZoom engine_fit (getInitialZoom engine_fit / 2))) = 5 \<and>
   getInitialZoom (snd (setZoom engine_fit (getInitialZoom engine_fit / 2))) = 10"
proof -
  have i: "getInitialZoom engine_fit = 10" by (simp add: getInitialZoom_def engine_fit_def)
  have h: "getInitialZoom engine_fit / 2 \<le> zoom engine_fit" by (simp add: i) (simp add: engine_fit_def)
  from setZoom_half_applied [OF h] h show ?thesis by (simp add: i)
qed

text \<open>
  Claim C5 as stated fails: on an empty extent (\<open>min = max = 0\<close>, where
  \<open>initialZoom\<close> is 1) the window of 100 pixels does not fit, and a pan by 5 ends at
  \<open>positionX = -100\<close>, below \<open>min\<close>.
\<close>

theorem pan_counterexample:
  "zoom engine_empty = getInitialZoom engine_empty \<and>
   positionX (tryToChangePosition engine_empty 5) = -100 \<and> vmin engine_empty = 0"
  by (simp add: tryToChangePosition_def setPositionX_def getRealView_def getInitialZoom_def
        engine_empty_def)

text \<open>
  The upper bound \<open>positionX \<le> max - width / zoom\<close> can also fail by one rounding step
  where the window fits: at zoom 2 on the extent 0..100 with 100 pixels, the window is
  50 long and \<open>max - width / zoom\<close> is 50; a pan from 0 by \<open>50.00000000000001\<close> (the
  double \<open>50 + 2 ^ -47\<close>) passes the test of the code, the sum
  \<open>positionX + delta + realView\<close> rounding to 100, and the full delta is applied.
\<close>

lemma pan_rounding_example:
  "double_round (vmin engine_pan + getRealView engine_pan) \<le> vmax engine_pan \<and>
   vmin engine_pan \<le> double_round (vmax engine_pan - getRealView engine_pan) \<and>
   double_round (vmax engine_pan - getRealView engine_pan) = 50 \<and>
   positionX (tryToChangePosition engine_pan (7036874417766401 / 140737488355328))
     = 7036874417766401 / 140737488355328 \<and>
   (50 :: real) < 7036874417766401 / 140737488355328"
proof -
  have v: "zoom engine_pan = 2" "positionX engine_pan = 0" "vmin engine_pan = 0"
      "vmax engine_pan = 100" "width engine_pan = 100"
    by (simp_all add: engine_pan_def)
  have rv: "getRealView engine_pan = 50" by (simp add: getRealView_def v)
  have d: "double_round (7036874417766401 / 140737488355328)
      = 7036874417766401 / 140737488355328"
    using double_round_dyadic [of 7036874417766401 47] by simp
  have s: "double_round (14073748835532801 / 140737488355328) = 100"
    using double_round_at [of 6 "14073748835532801 / 140737488355328"]
    by (simp add: pow2_eval round_even_def)
  have "positionX (tryToChangePosition engine_pan (7036874417766401 / 140737488355328))
     = 7036874417766401 / 140737488355328"
    by (simp add: tryToChangePosition_def setPositionX_def rv v d s)
  then show ?thesis by (simp add: rv v)
qed

text \<open>
  Claim C5, as amended. For every state with \<open>zoom\<close> not zero whose window fits in
  the extent, in the two forms \<open>min + width / zoom \<le> max\<close> and
  \<open>min \<le> max - width / zoom\<close> as the code computes them, and every delta, after
  \<open>tryToChangePosition\<close> we have \<open>min \<le> positionX\<close>, and the right end
  \<open>positionX + width / zoom\<close> of the window, as the code computes it, is at most \<open>max\<close>
  or \<open>positionX\<close> is the clamp value \<open>max - width / zoom\<close>; the position is
  \<open>positionX + delta\<close> when that window stays in range, else \<open>min\<close> when
  \<open>positionX + delta \<le> min\<close>, else \<open>max - width / zoom\<close>; nothing else of the viewport
  changes.
\<close>

theorem tryToChangePosition_clamps:
  assumes "zoom engine \<noteq> 0"
    and "double_round (vmin engine + getRealView engine) \<le> vmax engine"
    and "vmin engine \<le> double_round (vmax engine - getRealView engine)"
  shows "vmin engine \<le> positionX (tryToChangePosition engine d) \<and>
         (double_round (positionX (tryToChangePosition engine d) + getRealView engine)
            \<le> vmax engine \<or>
          positionX (tryToChangePosition engine d)
            = double_round (vmax engine - getRealView engine)) \<and>
         positionX (tryToChangePosition engine d) =
           (if vmin engine \<le> double_round (positionX engine + d) \<and>
               double_round (double_round (positionX engine + d) + getRealView engine)
                 \<le> vmax engine
            then double_round (positionX engine + d)
            else if double_round (positionX engine + d) \<le> vmin engine then vmin engine
            else double_round (vmax engine - getRealView engine)) \<and>
         zoom (tryToChangePosition engine d) = zoom engine \<and>
         width (tryToChangePosition engine d) = width engine \<and>
         vmin (tryToChangePosition engine d) = vmin engine \<and>
         vmax (tryToChangePosition engine d) = vmax engine"
  using assms
  by (auto simp add: tryToChangePosition_def setPositionX_def Let_def)

text \<open>
  The theorem of C5 at the three cases.
\<close>

theorem tryToChangePosition_clamps_witness:
  "zoom engine_zoomed \<noteq> 0 \<and>
   double_round (vmin engine_zoomed + getRealView engine_zoomed) \<le> vmax engine_zoomed \<and>
   vmin engine_zoomed \<le> double_round (vmax engine_zoomed - getRealView engine_zoomed) \<and>
   positionX (tryToChangePosition engine_zoomed 1) = 3 \<and>
   positionX (tryToChangePosition engine_zoomed (-5)) = 0 \<and>
   positionX (tryToChangePosition engine_zoomed 10) = 5"
proof -
  have v: "zoom engine_zoomed = 20" "positionX engine_zoomed = 2" "vmin engine_zoomed = 0"
      "vmax engine_zoomed = 10" "width engine_zoomed = 100"
    by (simp_all add: engine_zoomed_def)
  have rv: "getRealView engine_zoomed = 5" by (simp add: getRealView_def v)
  have h: "zoom engine_zoomed \<noteq> 0"
      "double_round (vmin engine_zoomed + getRealView engine_zoomed) \<le> vmax engine_zoomed"
      "vmin engine_zoomed \<le> double_round (vmax engine_zoomed - getRealView engine_zoomed)"
    by (simp_all add: v rv)
  from tryToChangePosition_clamps [OF h, of 1] tryToChangePosition_clamps [OF h, of "-5"]
    tryToChangePosition_clamps [OF h, of 10] h
  show ?thesis by (simp add: v rv)
qed

section \<open>Hover events\<close>

lemma getHoveredRegion_keeps:
  "hoveredRegion (snd (getHoveredRegion ie)) = hoveredRegion ie"
  "currentCursor (snd (getHoveredRegion ie)) = currentCursor ie"
  "mouse (snd (getHoveredRegion ie)) = mouse ie"
  by (simp_all add: getHoveredRegion_def Let_def split: option.splits)

lemma clearCursor_keeps: "hoveredRegion (clearCursor ie) = hoveredRegion ie"
  using getHoveredRegion_keeps(1) [of ie]
  by (cases "getHoveredRegion ie") (simp add: clearCursor_def)

lemma hover_events_append: "hover_events (xs @ ys) = hover_events xs @ hover_events ys"
  by (induction xs rule: hover_events.induct) auto

lemma checkRegionHover_emits:
  "hover_events (fst (checkRegionHover ie)) =
     hover_emitted (hoveredRegion ie) (fst (getHoveredRegion ie)) \<and>
   hoveredRegion (snd (checkRegionHover ie)) = fst (getHoveredRegion ie)"
proof -
  obtain h ie1 where g: "getHoveredRegion ie = (h, ie1)" by (cases "getHoveredRegion ie")
  have k: "hoveredRegion ie1 = hoveredRegion ie"
    using getHoveredRegion_keeps(1) [of ie] g by simp
  show ?thesis
    by (cases h; cases "hoveredRegion ie")
       (simp_all add: checkRegionHover_def g k hover_emitted_def Let_def clearCursor_keeps)
qed

lemma hover_emitted_chain:
  assumes "successively same_id_or_null (new # es)"
  shows "successively same_id_or_null (old # hover_emitted old new @ es)"
  using assms
  by (cases old; cases new)
     (auto simp: hover_emitted_def same_id_or_null_def successively_Cons split: option.splits list.splits)

lemma hover_run_chain:
  "successively same_id_or_null (hoveredRegion ie # hover_events (hover_run cs ie))"
proof (induction cs arbitrary: ie)
  case Nil
  show ?case by simp
next
  case (Cons c cs)
  let ?ie = "apply_surroundings c ie"
  obtain out ie' where r: "checkRegionHover ?ie = (out, ie')" by (cases "checkRegionHover ?ie")
  have old: "hoveredRegion ?ie = hoveredRegion ie" by (simp add: apply_surroundings_def)
  from checkRegionHover_emits [of ?ie] r old
  have e: "hover_events out = hover_emitted (hoveredRegion ie) (fst (getHoveredRegion ?ie))"
    and h: "hoveredRegion ie' = fst (getHoveredRegion ?ie)" by simp_all
  have "successively same_id_or_null (hoveredRegion ie' # hover_events (hover_run cs ie'))"
    using Cons.IH .
  then have "successively same_id_or_null
      (hoveredRegion ie # hover_emitted (hoveredRegion ie) (hoveredRegion ie') @
         hover_events (hover_run cs ie'))"
    by (rule hover_emitted_chain)
  then show ?case by (simp add: r hover_events_append e h)
qed

text \<open>
  Claim C10, as amended. A region is compared with the hovered one by its \<open>id\<close>, the
  id of the panel that added it. When the resolved region has another id than the
  hovered region, \<open>checkRegionHover\<close> emits \<open>hover(null)\<close> and then
  \<open>hover(newRegion)\<close>; and in every run that starts with no hovered region, two
  consecutive emissions that are both not null carry the same id.
\<close>

theorem hover_ids:
  "(fst (getHoveredRegion ie) = Some r \<and> hoveredRegion ie = Some old \<and> rid r \<noteq> rid old \<longrightarrow>
      hover_events (fst (checkRegionHover ie)) = [None, Some r]) \<and>
   (hoveredRegion ie = None \<longrightarrow>
      successively same_id_or_null (hover_events (hover_run cs ie)))"
proof (intro conjI impI)
  assume "fst (getHoveredRegion ie) = Some r \<and> hoveredRegion ie = Some old \<and> rid r \<noteq> rid old"
  then show "hover_events (fst (checkRegionHover ie)) = [None, Some r]"
    using checkRegionHover_emits [of ie] by (simp add: hover_emitted_def)
next
  assume "hoveredRegion ie = None"
  then show "successively same_id_or_null (hover_events (hover_run cs ie))"
    using hover_run_chain [of ie cs] by (auto simp add: successively_Cons)
qed

text \<open>
  One step on the example: the first move over a region of the first panel.
\<close>

lemma hover_first: "checkRegionHover (apply_surroundings (mouse_at 1 1) idle_engine) =
   ([EmitHover (Some region_A) \<lparr>mouse_x = 1, mouse_y = 1\<rparr>, PartialRender],
    idle_engine\<lparr>mouse := \<lparr>mouse_x = 1, mouse_y = 1\<rparr>, instances := panels,
       hoveredInstance := Some (hd panels), hoveredRegion := Some region_A\<rparr>)"
  by (simp add: checkRegionHover_def getHoveredRegion_def clearCursor_def apply_surroundings_def
      mouse_at_def idle_engine_def panels_def region_A_def region_A2_def region_B_def Let_def)

lemmas hover_eval_defs = checkRegionHover_def getHoveredRegion_def clearCursor_def
  apply_surroundings_def mouse_at_def idle_engine_def panels_def region_A_def region_A2_def
  region_B_def Let_def

lemma hover_same_panel:
  "hover_events (hover_run [mouse_at 1 1, mouse_at 6 1] idle_engine) =
     [Some region_A, Some region_A2]"
  by (simp add: hover_eval_defs)

lemma hover_two_panels:
  "hover_events (hover_run [mouse_at 1 1, mouse_at 1 21] idle_engine) =
     [Some region_A, None, Some region_B]"
  by (simp add: hover_eval_defs)

text \<open>
  Claim C10 as stated fails: the mouse moves from one region to another region of the
  same panel, and the two \<open>hover\<close> emissions follow each other with no
  \<open>hover(null)\<close> between them.
\<close>

theorem hover_same_panel_counterexample:
  "hover_events (hover_run [mouse_at 1 1, mouse_at 6 1] idle_engine) =
     [Some region_A, Some region_A2] \<and>
   region_A \<noteq> region_A2 \<and> rid region_A = rid region_A2"
  using hover_same_panel by (simp add: region_A_def region_A2_def)

text \<open>
  The theorem of C10 at a move between two panels.
\<close>

theorem hover_ids_witness:
  "fst (getHoveredRegion hovering_A) = Some region_B \<and>
   hoveredRegion hovering_A = Some region_A \<and> rid region_B \<noteq> rid region_A \<and>
   hover_events (fst (checkRegionHover hovering_A)) = [None, Some region_B] \<and>
   hoveredRegion idle_engine = None \<and>
   hover_events (hover_run [mouse_at 1 1, mouse_at 1 21] idle_engine) =
     [Some region_A, None, Some region_B] \<and>
   successively same_id_or_null [Some region_A, None, Some region_B]"
proof -
  have a: "fst (getHoveredRegion hovering_A) = Some region_B \<and>
      hoveredRegion hovering_A = Some region_A \<and> rid region_B \<noteq> rid region_A"
    by (simp add: getHoveredRegion_def hovering_A_def panels_def region_A_def region_A2_def
          region_B_def Let_def)
  from hover_ids [of hovering_A region_B region_A "[]"] a
  have b: "hover_events (fst (checkRegionHover hovering_A)) = [None, Some region_B]" by blast
  have i: "hoveredRegion idle_engine = None" by (simp add: idle_engine_def)
  from hover_ids [of idle_engine region_B region_A "[mouse_at 1 1, mouse_at 1 21]"] i
  have "successively same_id_or_null
      (hover_events (hover_run [mouse_at 1 1, mouse_at 1 21] idle_engine))" by blast
  then have c: "successively same_id_or_null [Some region_A, None, Some region_B]"
    unfolding hover_two_panels .
  show ?thesis using a b c i hover_two_panels by simp
qed

text \<open>
  The example panels are what \<open>addHitRegion\<close> of each panel builds: every region
  carries the id of its panel.
\<close>

lemma panels_built:
  "panels =
     [separated_addHitRegion
        (separated_addHitRegion
           \<lparr>s_id = 0, s_hitRegions = [], s_position = 0, s_height = 10\<rparr>
           CLUSTER 1 0 0 2 2 None)
        CLUSTER 2 5 0 2 2 None,
      separated_addHitRegion
        \<lparr>s_id = 1, s_hitRegions = [], s_position = 20, s_height = 10\<rparr>
        CLUSTER 3 0 0 2 2 None]"
  by (simp add: panels_def separated_addHitRegion_def region_A_def region_A2_def region_B_def)

section \<open>Replacing the data\<close>

lemma reduce1_Some: "xs \<noteq> [] \<Longrightarrow> \<exists>y. reduce1 f xs = Some y"
  by (cases xs) (simp_all add: reduce1_def)

lemma map_filter_update_nonempty:
  "i < length xs \<Longrightarrow> f v = Some w \<Longrightarrow> List.map_filter f (xs[i := v]) \<noteq> []"
proof -
  assume a: "i < length xs" "f v = Some w"
  then have "v \<in> set (xs[i := v])" by (simp add: set_update_memI)
  then have "w \<in> set (List.map_filter f (xs[i := v]))"
    using a(2) by (force simp: map_filter_def)
  then show ?thesis by auto
qed

lemma calcMinMax_Some:
  assumes "i < length (plugin_bounds engine)"
  shows "\<exists>r. calcMinMax (engine\<lparr>plugin_bounds := (plugin_bounds engine)[i := (Some lo, Some hi)]\<rparr>)
            = Some r"
proof -
  let ?b = "(plugin_bounds engine)[i := (Some lo, Some hi)]"
  obtain a where a: "reduce1 min (List.map_filter fst ?b) = Some a"
    using reduce1_Some [OF map_filter_update_nonempty [OF assms, of fst "(Some lo, Some hi)" lo]]
    by auto
  obtain b where b: "reduce1 max (List.map_filter snd ?b) = Some b"
    using reduce1_Some [OF map_filter_update_nonempty [OF assms, of snd "(Some lo, Some hi)" hi]]
    by auto
  show ?thesis by (simp add: calcMinMax_def a b)
qed

lemma plugin_reclusterize_Some:
  "\<exists>cs. plugin_reclusterize p engine = Some (p\<lparr>actualClusterizedFlatTree := cs\<rparr>)"
proof -
  obtain cs where "reclusterizeClusteredFlatTree (initialClusterizedFlatTree p) (zoom engine)
             (positionX engine) (double_round (positionX engine + getRealView engine))
             None None = Some cs"
    using reclusterize_total by blast
  then have "plugin_reclusterize p engine = Some (p\<lparr>actualClusterizedFlatTree := cs\<rparr>)"
    by (simp add: plugin_reclusterize_def)
  then show ?thesis by blast
qed

lemma initData_Some:
  "\<exists>p'. initData p engine = Some p' \<and> data p' = data p \<and> p_flatTree p' = p_flatTree p \<and>
        p_min p' = p_min p \<and> p_max p' = p_max p"
proof -
  let ?meta = "metaClusterizeFlatTree (p_flatTree p) defaultClusterizeCondition"
  obtain initial where i: "clusterizeFlatTree ?meta (zoom engine) (Some (p_min p)) (Some (p_max p))
      None None = Some initial"
    using clusterizeFlatTree_total by blast
  let ?p = "p\<lparr>metaClusterizedFlatTree := ?meta, initialClusterizedFlatTree := initial\<rparr>"
  obtain cs where "plugin_reclusterize ?p engine = Some (?p\<lparr>actualClusterizedFlatTree := cs\<rparr>)"
    using plugin_reclusterize_Some by blast
  then show ?thesis by (simp add: initData_def i)
qed

lemma setData_completes:
  assumes "engine_index p < length (child_engines main)"
    and "engine_index p < length (plugin_bounds main)"
  shows "\<exists>r. setData (p, main) d = Some r"
proof -
  let ?p1 = "parseData (p\<lparr>data := d\<rparr>)"
  let ?main1 = "main\<lparr>plugin_bounds :=
       (plugin_bounds main)[engine_index p := (Some (p_min ?p1), Some (p_max ?p1))]\<rparr>"
  have e: "nth_elem (child_engines main) (engine_index ?p1) =
      Some (child_engines main ! engine_index p)"
    using assms(1) by (simp add: nth_elem_def parseData_def Let_def)
  obtain p2 where p2: "initData ?p1 (child_engines main ! engine_index p) = Some p2"
    using initData_Some by blast
  obtain main2 where m: "calcMinMax ?main1 = Some main2"
    using calcMinMax_Some [OF assms(2)] by blast
  show ?thesis
    by (simp add: setData_def Let_def e p2 m)
qed

lemma setData_content:
  assumes "setData (p, main) d = Some (p', main')"
  shows "data p' = d \<and> p_flatTree p' = flatTree d \<and>
         (p_min p', p_max p') = getFlatTreeMinMax (flatTree d)"
proof -
  let ?p1 = "parseData (p\<lparr>data := d\<rparr>)"
  have p1: "data ?p1 = d" "p_flatTree ?p1 = flatTree d"
      "(p_min ?p1, p_max ?p1) = getFlatTreeMinMax (flatTree d)"
    by (simp_all add: parseData_def Let_def)
  from assms obtain engine p2 where p2: "initData ?p1 engine = Some p2" "p' = reset p2"
    by (auto simp: setData_def Let_def split: option.splits)
  from initData_Some [of ?p1 engine] p2(1)
  have "data p2 = data ?p1" "p_flatTree p2 = p_flatTree ?p1" "p_min p2 = p_min ?p1"
      "p_max p2 = p_max ?p1"
    by auto
  then show ?thesis using p1 by (simp add: p2(2) reset_def)
qed

text \<open>
  Claim C3, as amended. \<open>setData\<close> validates nothing and returns nothing: for every
  input forest (one with a negative duration too), with the plugin attached to an
  engine, the call completes, the held data set is the input, and the flat tree and
  the extent are rebuilt from it.
\<close>

theorem setData_accepts:
  assumes "engine_index p < length (child_engines main)"
    and "engine_index p < length (plugin_bounds main)"
  shows "\<exists>p' main'. setData (p, main) d = Some (p', main') \<and> data p' = d \<and>
           p_flatTree p' = flatTree d \<and> (p_min p', p_max p') = getFlatTreeMinMax (flatTree d)"
proof -
  obtain p' main' where r: "setData (p, main) d = Some (p', main')"
    using setData_completes [OF assms, of d] by (cases "the (setData (p, main) d)") auto
  from setData_content [OF r] r show ?thesis by blast
qed

text \<open>
  Claim C3 as stated fails: a forest with an interval of duration -1 replaces the held
  data set.
\<close>

theorem setData_negative_counterexample:
  "duration bad_node < 0 \<and> data plugin_r = [tree_r] \<and>
   map_option (\<lambda>st. data (fst st)) (setData (plugin_r, main_engine) [bad_node]) = Some [bad_node]"
proof -
  have h: "engine_index plugin_r < length (child_engines main_engine)"
      "engine_index plugin_r < length (plugin_bounds main_engine)"
    by (simp_all add: plugin_r_def main_engine_def)
  obtain p' main' where r: "setData (plugin_r, main_engine) [bad_node] = Some (p', main')"
    using setData_completes [OF h, of "[bad_node]"]
    by (cases "the (setData (plugin_r, main_engine) [bad_node])") auto
  from setData_content [OF r] r
  have "map_option (\<lambda>st. data (fst st)) (setData (plugin_r, main_engine) [bad_node]) = Some [bad_node]"
    by simp
  then show ?thesis by (simp add: bad_node_def plugin_r_def)
qed

text \<open>
  The theorem of C3 at the forest of the counterexample.
\<close>

theorem setData_accepts_witness:
  "engine_index plugin_r < length (child_engines main_engine) \<and>
   engine_index plugin_r < length (plugin_bounds main_engine) \<and>
   map_option (\<lambda>st. p_flatTree (fst st)) (setData (plugin_r, main_engine) [bad_node]) =
     Some [FlatTreeNode bad_node (-1) None 0 0]"
proof -
  have h: "engine_index plugin_r < length (child_engines main_engine)"
      "engine_index plugin_r < length (plugin_bounds main_engine)"
    by (simp_all add: plugin_r_def main_engine_def)
  have f: "flatTree [bad_node] = [FlatTreeNode bad_node (-1) None 0 0]"
    by (simp add: flatTree_def flatTree_cb_def sort_by_def Let_def bad_node_def)
  from setData_accepts [OF h, of "[bad_node]"]
  have "map_option (\<lambda>st. p_flatTree (fst st)) (setData (plugin_r, main_engine) [bad_node]) =
     Some (flatTree [bad_node])"
    by auto
  then show ?thesis using h by (simp add: f)
qed

end
